theory Spec2Isabelle
  imports Complex_Main "HOL-Library.AList" "HOL-Library.Sublist"
begin

section \<open>Python values, exceptions and dictionaries\<close>

text \<open>
  The exceptions that the graph construction of \<^verbatim>\<open>graph.py\<close> can raise.
  \<open>KeyError k\<close> carries the missing key, as Python's \<^verbatim>\<open>KeyError\<close> does;
  \<open>AttributeError a\<close> carries the name of the attribute that the object lacks;
  \<open>IndexError\<close> is \<^verbatim>\<open>list(...)[0]\<close> on an empty list; \<open>ValueError\<close> is what the
  float parser and matplotlib's \<^verbatim>\<open>to_rgba\<close> raise on a bad colour.
\<close>

datatype error = KeyError string | AttributeError string | IndexError | ValueError string

text \<open>
  A JSON number as \<^verbatim>\<open>json.loads\<close> gives it: a Python \<^verbatim>\<open>int\<close> (unbounded), or a
  \<^verbatim>\<open>float\<close>, held by its exact value.
\<close>

datatype pynum = PyInt int | PyFloat rat

type_synonym rgba = "rat \<times> rat \<times> rat \<times> rat"

text \<open>
  What lies outside the repository and is taken as given: the float parser applied to
  one component of a colour string, matplotlib's \<^verbatim>\<open>to_rgba\<close> applied to the tuple
  of components, and the text that an f-string gives for a float.
\<close>

record ext =
  py_float :: "string \<Rightarrow> error + rat"
  to_rgba :: "rat list \<Rightarrow> error + rgba"
  float_str :: "rat \<Rightarrow> string"

definition bindE :: "error + 'a \<Rightarrow> ('a \<Rightarrow> error + 'b) \<Rightarrow> error + 'b" where
  "bindE m f = (case m of Inl e \<Rightarrow> Inl e | Inr x \<Rightarrow> f x)"

text \<open>A \<^verbatim>\<open>for\<close> loop over a list whose body may raise: the first exception ends it.\<close>

fun foldE :: "('a \<Rightarrow> 's \<Rightarrow> error + 's) \<Rightarrow> 'a list \<Rightarrow> 's \<Rightarrow> error + 's" where
  "foldE f [] s = Inr s"
| "foldE f (x # xs) s = (case f x s of Inl e \<Rightarrow> Inl e | Inr s' \<Rightarrow> foldE f xs s')"

fun mapE :: "('a \<Rightarrow> error + 'b) \<Rightarrow> 'a list \<Rightarrow> error + 'b list" where
  "mapE f [] = Inr []"
| "mapE f (x # xs) =
     (case f x of Inl e \<Rightarrow> Inl e
      | Inr y \<Rightarrow> (case mapE f xs of Inl e \<Rightarrow> Inl e | Inr ys \<Rightarrow> Inr (y # ys)))"

text \<open>\<^verbatim>\<open>d[k]\<close> on a field that the JSON object may lack.\<close>

definition dict_get :: "string \<Rightarrow> 'a option \<Rightarrow> error + 'a" where
  "dict_get k v = (case v of None \<Rightarrow> Inl (KeyError k) | Some x \<Rightarrow> Inr x)"

text \<open>
  \<^verbatim>\<open>d[k]\<close> on a dictionary keyed by identifiers. Such a dictionary is an association
  list in insertion order, with distinct keys.
\<close>

definition dict_lookup :: "string \<Rightarrow> (string \<times> 'a) list \<Rightarrow> error + 'a" where
  "dict_lookup k d = (case map_of d k of None \<Rightarrow> Inl (KeyError k) | Some x \<Rightarrow> Inr x)"

subsection \<open>Formatting a number in an f-string\<close>

definition digit_char :: "nat \<Rightarrow> char" where
  "digit_char n = ''0123456789'' ! n"

function str_nat :: "nat \<Rightarrow> string" where
  "str_nat n = (if n < 10 then [digit_char n] else str_nat (n div 10) @ [digit_char (n mod 10)])"
  by pat_completeness auto
termination
  by (relation "measure (\<lambda>n. n)") auto

declare str_nat.simps [simp del]

definition str_int :: "int \<Rightarrow> string" where
  "str_int i = (if i < 0 then CHR ''-'' # str_nat (nat (- i)) else str_nat (nat i))"

fun py_format :: "ext \<Rightarrow> pynum \<Rightarrow> string" where
  "py_format X (PyInt i) = str_int i"
| "py_format X (PyFloat r) = float_str X r"

subsection \<open>Splitting a string at white space\<close>

text \<open>
  The ASCII characters that Python counts as white space: the space, the controls from
  tab to carriage return, and the four separators \<^verbatim>\<open>\x1c\<close> to \<^verbatim>\<open>\x1f\<close>. (A colour
  string is taken to be ASCII.)
\<close>

definition is_space :: "char \<Rightarrow> bool" where
  "is_space c =
     (c \<in> set [CHR '' '', CHR 0x09, CHR 0x0A, CHR 0x0B, CHR 0x0C, CHR 0x0D,
                CHR 0x1C, CHR 0x1D, CHR 0x1E, CHR 0x1F])"

text \<open>
  \<^verbatim>\<open>str.split()\<close> with no argument: the maximal runs of characters that are not white
  space. \<open>cur\<close> is the run being read, reversed.
\<close>

fun split_acc :: "string \<Rightarrow> string \<Rightarrow> string list" where
  "split_acc cur [] = (if cur = [] then [] else [rev cur])"
| "split_acc cur (c # cs) =
     (if is_space c then (if cur = [] then split_acc [] cs else rev cur # split_acc [] cs)
      else split_acc (c # cur) cs)"

definition py_split :: "string \<Rightarrow> string list" where
  "py_split s = split_acc [] s"

section \<open>The model description\<close>

text \<open>
  The parsed JSON, field by field. A field that the code reads with \<^verbatim>\<open>d[k]\<close> or
  \<^verbatim>\<open>d.get(k)\<close> is an option: \<open>None\<close> is the key missing from the object. For
  \<open>weight\<close> and \<open>delay\<close>, \<open>None\<close> is also a JSON \<^verbatim>\<open>null\<close>, which
  \<^verbatim>\<open>proj.get\<close> does not tell from a missing key.
\<close>

record properties =
  color :: "string option"

record population =
  properties :: "properties option"
  pop_size :: "pynum option"

record random_connectivity =
  probability :: "rat option"

record projection =
  presynaptic :: "string option"
  postsynaptic :: "string option"
  synapse :: "string option"
  random_connectivity :: "random_connectivity option"
  directionality :: "string option"
  weight :: "pynum option"
  delay :: "pynum option"

record input_info =
  population :: "string option"
  input_source :: "string option"

text \<open>
  Of \<open>input_sources\<close> the code reads only that the key is there
  (\<^verbatim>\<open>network['input_sources']\<close> is passed on and never looked into).
\<close>

record network =
  populations :: "(string \<times> population) list option"
  inputs :: "(string \<times> input_info) list option"
  input_sources :: "unit option"
  projections :: "(string \<times> projection) list option"

section \<open>The directed graph\<close>

text \<open>
  An attribute of a node or an edge: a string, Python's \<^verbatim>\<open>None\<close>, an RGBA tuple, or
  a number. An attribute dictionary is a map from attribute names.
\<close>

datatype attr_val = VStr string | VNone | VColor rgba | VNum pynum

type_synonym attrs = "string \<rightharpoonup> attr_val"

text \<open>
  \<^verbatim>\<open>networkx.DiGraph\<close>: a dictionary of nodes and a dictionary of edges keyed by the
  ordered pair of end points, each entry with its attribute dictionary. The nodes are kept
  in the order of insertion, as \<^verbatim>\<open>G.nodes\<close> gives them; the order of the edges is not
  read by the construction.
\<close>

record graph =
  nodes :: "(string \<times> attrs) list"
  edges :: "((string \<times> string) \<times> attrs) list"

definition empty_graph :: graph where
  "empty_graph = \<lparr>nodes = [], edges = []\<rparr>"

definition attrs_of :: "('k \<times> attrs) list \<Rightarrow> 'k \<Rightarrow> attrs" where
  "attrs_of d k = (case map_of d k of None \<Rightarrow> Map.empty | Some a \<Rightarrow> a)"

text \<open>
  \<^verbatim>\<open>G.add_node(n, **attr)\<close>: a new node gets the attributes; on a node that exists
  the attributes given are written over its own.
\<close>

definition add_node :: "graph \<Rightarrow> string \<Rightarrow> attrs \<Rightarrow> graph" where
  "add_node G n a = G\<lparr>nodes := AList.update n (attrs_of (nodes G) n ++ a) (nodes G)\<rparr>"

text \<open>What \<^verbatim>\<open>add_edge\<close> does to an end point: a node that is not there is created bare.\<close>

definition touch_node :: "graph \<Rightarrow> string \<Rightarrow> graph" where
  "touch_node G n =
     (case map_of (nodes G) n of
        None \<Rightarrow> G\<lparr>nodes := nodes G @ [(n, Map.empty)]\<rparr>
      | Some _ \<Rightarrow> G)"

text \<open>
  \<^verbatim>\<open>G.add_edge(u, v, **attr)\<close>: both end points are created if missing; the edge's
  dictionary is the one it had (empty for a new edge) with the attributes given written
  over it.
\<close>

definition add_edge :: "graph \<Rightarrow> string \<Rightarrow> string \<Rightarrow> attrs \<Rightarrow> graph" where
  "add_edge G u v a =
     (let G1 = touch_node (touch_node G u) v
      in G1\<lparr>edges := AList.update (u, v) (attrs_of (edges G1) (u, v) ++ a) (edges G1)\<rparr>)"

text \<open>\<^verbatim>\<open>G.nodes[n][k] = v\<close>.\<close>

definition set_node_attr :: "graph \<Rightarrow> string \<Rightarrow> string \<Rightarrow> attr_val \<Rightarrow> error + graph" where
  "set_node_attr G n k v =
     (case map_of (nodes G) n of
        None \<Rightarrow> Inl (KeyError n)
      | Some d \<Rightarrow> Inr (G\<lparr>nodes := AList.update n (d(k \<mapsto> v)) (nodes G)\<rparr>))"

section \<open>The class \<^verbatim>\<open>SimpleNNNetworkGraph\<close>\<close>

text \<open>\<^verbatim>\<open>_convert_color\<close>: split, parse each component, hand the tuple to matplotlib.\<close>

definition convert_color :: "ext \<Rightarrow> string \<Rightarrow> error + rgba" where
  "convert_color X color_str = bindE (mapE (py_float X) (py_split color_str)) (to_rgba X)"

text \<open>
  The dictionary \<^verbatim>\<open>node_shapes\<close> of \<^verbatim>\<open>_create_graph\<close>. It is only read at these four
  keys.
\<close>

definition node_shapes :: "string \<Rightarrow> string" where
  "node_shapes k =
     (if k = ''excitatory'' then ''^''
      else if k = ''inhibitory'' then ''o''
      else if k = ''generic'' then ''s''
      else if k = ''input'' then ''h''
      else [])"

text \<open>\<^verbatim>\<open>_format_edge_info\<close>.\<close>

definition format_edge_info :: "ext \<Rightarrow> projection \<Rightarrow> string" where
  "format_edge_info X proj =
     (case weight proj of
        Some w \<Rightarrow>
          (case delay proj of
             Some d \<Rightarrow> ''Weight: '' @ py_format X w @ '', Delay: '' @ py_format X d
           | None \<Rightarrow> ''Weight: '' @ py_format X w)
      | None \<Rightarrow>
          (case delay proj of
             Some d \<Rightarrow> ''Delay: '' @ py_format X d
           | None \<Rightarrow> []))"

text \<open>
  \<^verbatim>\<open>_get_edge_attributes\<close>. Each branch builds its dictionary entry by entry, so
  \<^verbatim>\<open>proj['synapse']\<close> is read first, and in the last branch the colour of the
  presynaptic population is looked up and converted after it.
\<close>

definition get_edge_attributes ::
  "ext \<Rightarrow> string \<Rightarrow> projection \<Rightarrow> string \<Rightarrow> network \<Rightarrow> error + attrs" where
  "get_edge_attributes X synapse_type proj style net =
     (if synapse_type = ''ampaSyn'' then
        bindE (dict_get ''synapse'' (synapse proj)) (\<lambda>s.
        Inr [''synapse'' \<mapsto> VStr s, ''style'' \<mapsto> VStr style,
             ''arrowstyle'' \<mapsto> VStr ''-|>'', ''color'' \<mapsto> VStr ''blue'',
             ''info'' \<mapsto> VStr (format_edge_info X proj),
             ''synapse_category'' \<mapsto> VStr ''excitatory''])
      else if synapse_type = ''gabaSyn'' then
        bindE (dict_get ''synapse'' (synapse proj)) (\<lambda>s.
        Inr [''synapse'' \<mapsto> VStr s, ''style'' \<mapsto> VStr style,
             ''arrowstyle'' \<mapsto> VNone, ''color'' \<mapsto> VStr ''red'',
             ''info'' \<mapsto> VStr (format_edge_info X proj),
             ''synapse_category'' \<mapsto> VStr ''inhibitory''])
      else
        bindE (dict_get ''synapse'' (synapse proj)) (\<lambda>s.
        bindE (dict_get ''populations'' (populations net)) (\<lambda>pops.
        bindE (dict_get ''presynaptic'' (presynaptic proj)) (\<lambda>pre.
        bindE (dict_lookup pre pops) (\<lambda>pop.
        bindE (dict_get ''properties'' (properties pop)) (\<lambda>props.
        bindE (dict_get ''color'' (color props)) (\<lambda>c.
        bindE (convert_color X c) (\<lambda>col.
        Inr [''synapse'' \<mapsto> VStr s, ''style'' \<mapsto> VStr style,
             ''arrowstyle'' \<mapsto> VStr ''->'', ''color'' \<mapsto> VColor col,
             ''info'' \<mapsto> VStr (format_edge_info X proj),
             ''synapse_category'' \<mapsto> VStr ''generic'']))))))))"

text \<open>
  A value of \<^verbatim>\<open>node_synapse_types\<close>: the set of categories of a node, or the string
  that \<^verbatim>\<open>_create_graph\<close> stores for an input node.
\<close>

datatype syn_types = TSet "attr_val set" | TStr string

type_synonym node_synapse_types = "(string \<times> syn_types) list"

text \<open>\<^verbatim>\<open>s in t\<close> for strings: \<open>s\<close> occurs in \<open>t\<close> as a contiguous piece.\<close>

fun str_contains :: "string \<Rightarrow> string \<Rightarrow> bool" where
  "str_contains s [] = (s = [])"
| "str_contains s (c # cs) = (prefix s (c # cs) \<or> str_contains s cs)"

text \<open>\<^verbatim>\<open>k in synapse_types\<close>, for a string \<open>k\<close>.\<close>

fun py_in :: "string \<Rightarrow> syn_types \<Rightarrow> bool" where
  "py_in k (TSet S) = (VStr k \<in> S)"
| "py_in k (TStr t) = str_contains k t"

text \<open>\<^verbatim>\<open>synapse_types.add(v)\<close>: a string has no such method.\<close>

fun set_add :: "syn_types \<Rightarrow> attr_val \<Rightarrow> error + syn_types" where
  "set_add (TSet S) v = Inr (TSet (insert v S))"
| "set_add (TStr t) v = Inl (AttributeError ''add'')"

text \<open>
  The two locals of \<^verbatim>\<open>_add_projection\<close>: \<^verbatim>\<open>synapse_type\<close>, which is
  \<^verbatim>\<open>proj.get('synapse', 'generic')\<close>, and \<^verbatim>\<open>style\<close>, which is \<^verbatim>\<open>dashed\<close> when
  \<^verbatim>\<open>proj.get('random_connectivity', {}).get('probability', 1) < 1\<close>.
\<close>

definition synapse_type_of :: "projection \<Rightarrow> string" where
  "synapse_type_of proj = (case synapse proj of None \<Rightarrow> ''generic'' | Some s \<Rightarrow> s)"

definition style_of :: "projection \<Rightarrow> string" where
  "style_of proj =
     (if (case random_connectivity proj of
            None \<Rightarrow> 1
          | Some rc \<Rightarrow> (case probability rc of None \<Rightarrow> 1 | Some q \<Rightarrow> q)) < 1
      then ''dashed'' else ''solid'')"

text \<open>
  \<^verbatim>\<open>_add_projection\<close>. The graph and \<^verbatim>\<open>node_synapse_types\<close> are changed in place in
  the source; here both are returned.
\<close>

definition add_projection ::
  "ext \<Rightarrow> graph \<Rightarrow> projection \<Rightarrow> node_synapse_types \<Rightarrow> network
     \<Rightarrow> error + (graph \<times> node_synapse_types)" where
  "add_projection X G proj nst net =
     bindE (dict_get ''presynaptic'' (presynaptic proj)) (\<lambda>pre_pop.
     bindE (dict_get ''postsynaptic'' (postsynaptic proj)) (\<lambda>post_pop.
     bindE (get_edge_attributes X (synapse_type_of proj) proj (style_of proj) net) (\<lambda>edge_attrs.
     bindE (dict_lookup pre_pop nst) (\<lambda>types.
     bindE (dict_get ''synapse_category'' (edge_attrs ''synapse_category'')) (\<lambda>cat.
     bindE (set_add types cat) (\<lambda>types'.
     let nst' = AList.update pre_pop types' nst
     in
     if directionality proj = Some ''bidirectional'' then
       Inr (add_edge (add_edge G pre_pop post_pop edge_attrs) post_pop pre_pop edge_attrs, nst')
     else
       Inr (add_edge G pre_pop post_pop edge_attrs, nst')))))))"

text \<open>\<^verbatim>\<open>_add_input_edge\<close>.\<close>

definition add_input_edge :: "graph \<Rightarrow> string \<Rightarrow> input_info \<Rightarrow> unit \<Rightarrow> error + graph" where
  "add_input_edge G input_id info srcs =
     bindE (dict_get ''population'' (population info)) (\<lambda>target_pop.
     Inr (add_edge G input_id target_pop
            [''synapse'' \<mapsto> VStr ''input'', ''style'' \<mapsto> VStr ''solid'',
             ''arrowstyle'' \<mapsto> VStr ''->'', ''color'' \<mapsto> VStr ''yellow'']))"

text \<open>
  The body of the loop of \<^verbatim>\<open>_update_node_shapes\<close>, for one entry of
  \<^verbatim>\<open>node_synapse_types\<close>. (The \<^verbatim>\<open>print\<close> of the fourth branch writes to the
  standard output and changes nothing.)
\<close>

definition update_node_shape :: "graph \<Rightarrow> string \<Rightarrow> syn_types \<Rightarrow> error + graph" where
  "update_node_shape G node types =
     (if py_in ''excitatory'' types \<and> py_in ''inhibitory'' types then
        set_node_attr G node ''shape'' (VStr (node_shapes ''generic''))
      else if py_in ''excitatory'' types then
        bindE (set_node_attr G node ''shape'' (VStr (node_shapes ''excitatory''))) (\<lambda>G1.
        set_node_attr G1 node ''color'' (VStr ''blue''))
      else if py_in ''inhibitory'' types then
        bindE (set_node_attr G node ''shape'' (VStr (node_shapes ''inhibitory''))) (\<lambda>G1.
        set_node_attr G1 node ''color'' (VStr ''red''))
      else if py_in ''dummy'' types then
        set_node_attr G node ''shape'' (VStr (node_shapes ''input''))
      else
        set_node_attr G node ''shape'' (VStr (node_shapes ''generic'')))"

text \<open>\<^verbatim>\<open>_update_node_shapes\<close>.\<close>

definition update_node_shapes :: "graph \<Rightarrow> node_synapse_types \<Rightarrow> error + graph" where
  "update_node_shapes G nst = foldE (\<lambda>(node, types) G'. update_node_shape G' node types) nst G"

text \<open>The body of the loop over \<^verbatim>\<open>network['populations'].items()\<close>.\<close>

definition add_population :: "ext \<Rightarrow> string \<times> population \<Rightarrow> graph \<Rightarrow> error + graph" where
  "add_population X = (\<lambda>(pop_id, pop) G.
     bindE (dict_get ''properties'' (properties pop)) (\<lambda>props.
     bindE (dict_get ''color'' (color props)) (\<lambda>c.
     bindE (convert_color X c) (\<lambda>col.
     bindE (dict_get ''size'' (pop_size pop)) (\<lambda>sz.
     Inr (add_node G pop_id
            [''color'' \<mapsto> VColor col, ''shape'' \<mapsto> VStr (node_shapes ''generic''),
             ''size'' \<mapsto> VNum sz]))))))"

text \<open>The body of the loop over \<^verbatim>\<open>network['inputs'].items()\<close>.\<close>

definition add_input ::
  "ext \<Rightarrow> network \<Rightarrow> string \<times> input_info \<Rightarrow> graph \<times> node_synapse_types
     \<Rightarrow> error + (graph \<times> node_synapse_types)" where
  "add_input X net = (\<lambda>(input_id, info) (G, nst).
     bindE (convert_color X ''1 1 0'') (\<lambda>col.
     let G1 = add_node G input_id
                [''color'' \<mapsto> VColor col, ''shape'' \<mapsto> VStr (node_shapes ''input''),
                 ''size'' \<mapsto> VNum (PyInt 2)]
     in
     bindE (dict_get ''input_sources'' (input_sources net)) (\<lambda>srcs.
     bindE (add_input_edge G1 input_id info srcs) (\<lambda>G2.
     Inr (G2, AList.update input_id (TStr ''dummy'') nst)))))"

text \<open>
  The block of \<^verbatim>\<open>_create_graph\<close> under \<^verbatim>\<open>if 'inputs' in network and network['inputs']\<close>:
  the loop over the inputs, then \<^verbatim>\<open>_update_node_shapes\<close>. Nothing happens when the key is
  missing or the dictionary is empty.
\<close>

definition add_inputs ::
  "ext \<Rightarrow> network \<Rightarrow> graph \<times> node_synapse_types \<Rightarrow> error + (graph \<times> node_synapse_types)" where
  "add_inputs X net = (\<lambda>(G1, nst1).
     case inputs net of
       Some (i # ins) \<Rightarrow>
         bindE (foldE (add_input X net) (i # ins) (G1, nst1)) (\<lambda>(G2, nst2).
         bindE (update_node_shapes G2 nst2) (\<lambda>G3.
         Inr (G3, nst2)))
     | _ \<Rightarrow> Inr (G1, nst1))"

text \<open>The body of the loop over \<^verbatim>\<open>network['projections'].values()\<close>.\<close>

definition proj_step ::
  "ext \<Rightarrow> network \<Rightarrow> projection \<Rightarrow> graph \<times> node_synapse_types
     \<Rightarrow> error + (graph \<times> node_synapse_types)" where
  "proj_step X net = (\<lambda>proj (G, nst). add_projection X G proj nst net)"

text \<open>
  \<^verbatim>\<open>_create_graph\<close>, on the parsed file \<^verbatim>\<open>self.network_data\<close>: a dictionary from
  network identifiers to networks, of which the first is taken. \<open>create_graph_state\<close>
  is the function up to its \<^verbatim>\<open>return\<close>, with the local \<^verbatim>\<open>node_synapse_types\<close> beside
  the graph; \<open>create_graph\<close> is what it returns.
\<close>

definition create_graph_state ::
  "ext \<Rightarrow> (string \<times> network) list \<Rightarrow> error + (graph \<times> node_synapse_types)" where
  "create_graph_state X network_data =
     (case network_data of
        [] \<Rightarrow> Inl IndexError
      | (network_id, net) # _ \<Rightarrow>
          bindE (dict_get ''populations'' (populations net)) (\<lambda>pops.
          bindE (foldE (add_population X) pops empty_graph) (\<lambda>G1.
          bindE (add_inputs X net (G1, map (\<lambda>(node, _). (node, TSet {})) (nodes G1))) (\<lambda>(G3, nst3).
          bindE (dict_get ''projections'' (projections net)) (\<lambda>projs.
          foldE (proj_step X net) (map snd projs) (G3, nst3))))))"

definition create_graph :: "ext \<Rightarrow> (string \<times> network) list \<Rightarrow> error + graph" where
  "create_graph X network_data = bindE (create_graph_state X network_data) (\<lambda>(G, _). Inr G)"

section \<open>Reading a graph, and sample models\<close>

text \<open>\<^verbatim>\<open>G.nodes[n].get(k)\<close> and \<^verbatim>\<open>G.edges[u, v].get(k)\<close>; \<open>None\<close> also when the node or the
  edge is not in the graph.\<close>

definition node_attr :: "graph \<Rightarrow> string \<Rightarrow> string \<Rightarrow> attr_val option" where
  "node_attr G n k = attrs_of (nodes G) n k"

definition edge_attr :: "graph \<Rightarrow> string \<Rightarrow> string \<Rightarrow> string \<Rightarrow> attr_val option" where
  "edge_attr G u v k = attrs_of (edges G) (u, v) k"

text \<open>The identifiers of the nodes, and the ordered pairs that are edges.\<close>

definition node_ids :: "graph \<Rightarrow> string set" where
  "node_ids G = fst ` set (nodes G)"

definition edge_ids :: "graph \<Rightarrow> (string \<times> string) set" where
  "edge_ids G = fst ` set (edges G)"

text \<open>
  The keys of the dictionary that \<^verbatim>\<open>_get_edge_attributes\<close> returns, the keywords that
  \<^verbatim>\<open>_add_input_edge\<close> gives an edge, and the keywords that \<^verbatim>\<open>_create_graph\<close> gives a
  node.
\<close>

definition edge_keys :: "string set" where
  "edge_keys = {''synapse'', ''style'', ''arrowstyle'', ''color'', ''info'', ''synapse_category''}"

definition input_edge_keys :: "string set" where
  "input_edge_keys = {''synapse'', ''style'', ''arrowstyle'', ''color''}"

definition node_keys :: "string set" where
  "node_keys = {''color'', ''shape'', ''size''}"

text \<open>The identifiers that the model declares: its populations and its inputs.\<close>

definition pop_ids :: "network \<Rightarrow> string set" where
  "pop_ids net = (case populations net of None \<Rightarrow> {} | Some pops \<Rightarrow> fst ` set pops)"

definition input_ids :: "network \<Rightarrow> string set" where
  "input_ids net = (case inputs net of None \<Rightarrow> {} | Some ins \<Rightarrow> fst ` set ins)"

text \<open>
  A projection writes the edge from its presynaptic to its postsynaptic end, and the
  reverse edge too when it is bidirectional.
\<close>

definition writes_edge :: "projection \<Rightarrow> string \<times> string \<Rightarrow> bool" where
  "writes_edge q e =
     ((presynaptic q = Some (fst e) \<and> postsynaptic q = Some (snd e))
      \<or> (directionality q = Some ''bidirectional''
          \<and> presynaptic q = Some (snd e) \<and> postsynaptic q = Some (fst e)))"

text \<open>
  A stand-in for the float parser and for matplotlib, enough for the colours \<^verbatim>\<open>"0 0 1"\<close>
  and \<^verbatim>\<open>"1 1 0"\<close>: components \<^verbatim>\<open>0\<close> and \<^verbatim>\<open>1\<close> parse, three components get alpha 1.
\<close>

definition sample_ext :: ext where
  "sample_ext =
     \<lparr>py_float = (\<lambda>s. if s = ''0'' then Inr 0 else if s = ''1'' then Inr 1 else Inl (ValueError s)),
      to_rgba = (\<lambda>xs. case xs of
                         [r, g, b] \<Rightarrow> Inr (r, g, b, 1)
                       | [r, g, b, a] \<Rightarrow> Inr (r, g, b, a)
                       | _ \<Rightarrow> Inl (ValueError ''rgba'')),
      float_str = (\<lambda>r. [])\<rparr>"

text \<open>A projection with the two end points, and perhaps a synapse kind and a directionality.\<close>

definition mk_proj :: "string \<Rightarrow> string \<Rightarrow> string option \<Rightarrow> string option \<Rightarrow> projection" where
  "mk_proj pre post syn dir =
     \<lparr>presynaptic = Some pre, postsynaptic = Some post, synapse = syn,
      random_connectivity = None, directionality = dir, weight = None, delay = None\<rparr>"

text \<open>A population of colour \<^verbatim>\<open>"0 0 1"\<close> and size 10.\<close>

definition sample_pop :: population where
  "sample_pop = \<lparr>properties = Some \<lparr>color = Some ''0 0 1''\<rparr>, pop_size = Some (PyInt 10)\<rparr>"

text \<open>A network of two such populations \<^verbatim>\<open>P\<close> and \<^verbatim>\<open>Q\<close>, with the inputs and projections given.\<close>

definition sample_net :: "(string \<times> input_info) list option \<Rightarrow> projection list \<Rightarrow> network" where
  "sample_net ins projs =
     \<lparr>populations = Some [(''P'', sample_pop), (''Q'', sample_pop)], inputs = ins,
      input_sources = Some (), projections = Some (map (\<lambda>p. (''proj'', p)) projs)\<rparr>"

text \<open>A graph of one green square node \<^verbatim>\<open>P\<close>.\<close>

definition sample_graph :: graph where
  "sample_graph =
     \<lparr>nodes = [(''P'', [''color'' \<mapsto> VStr ''green'', ''shape'' \<mapsto> VStr ''s''])], edges = []\<rparr>"

text \<open>
  What the build keeps true. \<open>nodes_ok N G\<close>: every identifier of \<open>N\<close> is a node of
  \<open>G\<close> with a colour, a shape and a size. \<open>edges_ok I G\<close>: every edge has the four
  attributes of an input edge, and all six unless it starts at an identifier of \<open>I\<close>.
  \<open>nst_ok P nst\<close>: only identifiers of \<open>P\<close> have a set in \<^verbatim>\<open>node_synapse_types\<close>.
\<close>

definition nodes_ok :: "string set \<Rightarrow> graph \<Rightarrow> bool" where
  "nodes_ok N G = (\<forall>n \<in> N. n \<in> node_ids G \<and> node_keys \<subseteq> dom (attrs_of (nodes G) n))"

definition edges_ok :: "string set \<Rightarrow> graph \<Rightarrow> bool" where
  "edges_ok I G =
     (\<forall>e \<in> edge_ids G. input_edge_keys \<subseteq> dom (attrs_of (edges G) e)
        \<and> (fst e \<notin> I \<longrightarrow> edge_keys \<subseteq> dom (attrs_of (edges G) e)))"

definition nst_ok :: "string set \<Rightarrow> node_synapse_types \<Rightarrow> bool" where
  "nst_ok P nst = (\<forall>n S. map_of nst n = Some (TSet S) \<longrightarrow> n \<in> P)"

definition build_inv :: "network \<Rightarrow> graph \<times> node_synapse_types \<Rightarrow> bool" where
  "build_inv net = (\<lambda>(G, nst).
     nodes_ok (pop_ids net \<union> input_ids net) G \<and> edges_ok (input_ids net) G
     \<and> nst_ok (pop_ids net) nst \<and> distinct (map fst (edges G)))"

text \<open>
  \<open>input_edges_only G\<close>: every edge of \<open>G\<close> has the four attributes of an input edge
  and no other, as it is when the block of the inputs ends.
\<close>

definition input_edges_only :: "graph \<Rightarrow> bool" where
  "input_edges_only G = (\<forall>e \<in> edge_ids G. dom (attrs_of (edges G) e) = input_edge_keys)"

lemmas sample_defs = sample_ext_def mk_proj_def sample_pop_def sample_net_def sample_graph_def

lemmas eval_defs = create_graph_def create_graph_state_def
  bindE_def dict_get_def dict_lookup_def add_population_def add_projection_def
  synapse_type_of_def style_of_def
  get_edge_attributes_def convert_color_def py_split_def is_space_def add_node_def add_edge_def
  touch_node_def attrs_of_def empty_graph_def node_shapes_def format_edge_info_def add_input_def
  add_input_edge_def update_node_shapes_def update_node_shape_def set_node_attr_def
  add_inputs_def proj_step_def node_attr_def edge_attr_def Let_def

section \<open>Basic facts\<close>

lemma bindE_Inr_iff: "bindE m f = Inr y \<longleftrightarrow> (\<exists>x. m = Inr x \<and> f x = Inr y)"
  by (cases m) (simp_all add: bindE_def)

lemma bindE_Inr [simp]: "bindE (Inr x) f = f x"
  by (simp add: bindE_def)

lemma bindE_Inl [simp]: "bindE (Inl e) f = Inl e"
  by (simp add: bindE_def)

lemma dict_get_Inr_iff: "dict_get k v = Inr x \<longleftrightarrow> v = Some x"
  by (cases v) (simp_all add: dict_get_def)

lemma dict_get_Some [simp]: "dict_get k (Some x) = Inr x"
  by (simp add: dict_get_def)

lemma dict_get_None [simp]: "dict_get k None = Inl (KeyError k)"
  by (simp add: dict_get_def)

lemma dict_lookup_Inr_iff: "dict_lookup k d = Inr x \<longleftrightarrow> map_of d k = Some x"
  by (simp add: dict_lookup_def split: option.splits)

lemma get_edge_attributes_dom:
  assumes "get_edge_attributes X k proj style net = Inr a"
  shows "dom a = edge_keys"
  using assms
  by (auto simp: get_edge_attributes_def edge_keys_def bindE_Inr_iff split: if_splits)

lemma get_edge_attributes_info:
  assumes "get_edge_attributes X k proj style net = Inr a"
  shows "a ''info'' = Some (VStr (format_edge_info X proj))"
  using assms
  by (auto simp: get_edge_attributes_def bindE_Inr_iff split: if_splits)

subsection \<open>Graph operations\<close>

lemma attrs_of_update:
  "attrs_of (AList.update k v d) k' = (if k' = k then v else attrs_of d k')"
  by (simp add: attrs_of_def AList.update_conv')

lemma edges_touch_node [simp]: "edges (touch_node G n) = edges G"
  by (simp add: touch_node_def split: option.splits)

lemma attrs_of_nodes_touch_node [simp]:
  "attrs_of (nodes (touch_node G n)) m = attrs_of (nodes G) m"
  by (auto simp: touch_node_def attrs_of_def map_add_def split: option.splits)

lemma map_of_Some_key: "map_of d k = Some v \<Longrightarrow> k \<in> fst ` set d"
  by (metis domI dom_map_of_conv_image_fst)

lemma node_ids_touch_node: "node_ids (touch_node G n) = insert n (node_ids G)"
proof (cases "map_of (nodes G) n")
  case None
  then show ?thesis by (simp add: touch_node_def node_ids_def)
next
  case (Some d)
  then have "n \<in> node_ids G" by (simp add: node_ids_def map_of_Some_key)
  then show ?thesis using Some by (auto simp: touch_node_def)
qed

lemma attrs_of_nodes_add_edge [simp]:
  "attrs_of (nodes (add_edge G u v a)) m = attrs_of (nodes G) m"
  by (simp add: add_edge_def Let_def)

lemma node_ids_add_edge: "node_ids (add_edge G u v a) = insert u (insert v (node_ids G))"
proof -
  have "node_ids (add_edge G u v a) = node_ids (touch_node (touch_node G u) v)"
    by (simp add: add_edge_def Let_def node_ids_def)
  then show ?thesis by (auto simp: node_ids_touch_node)
qed

lemma attrs_of_edges_add_edge:
  "attrs_of (edges (add_edge G u v a)) e
     = (if e = (u, v) then attrs_of (edges G) (u, v) ++ a else attrs_of (edges G) e)"
  by (simp add: add_edge_def Let_def attrs_of_update)

lemma map_fst_edges_add_edge:
  "map fst (edges (add_edge G u v a))
     = (if (u, v) \<in> set (map fst (edges G)) then map fst (edges G) else map fst (edges G) @ [(u, v)])"
  by (simp add: add_edge_def Let_def AList.update_keys)

lemma edge_ids_add_edge: "edge_ids (add_edge G u v a) = insert (u, v) (edge_ids G)"
  by (simp add: edge_ids_def add_edge_def Let_def AList.dom_update)

lemma distinct_edges_add_edge:
  "distinct (map fst (edges G)) \<Longrightarrow> distinct (map fst (edges (add_edge G u v a)))"
  by (simp add: add_edge_def Let_def AList.distinct_update)

lemma edges_add_node [simp]: "edges (add_node G n a) = edges G"
  by (simp add: add_node_def)

lemma attrs_of_nodes_add_node:
  "attrs_of (nodes (add_node G n a)) m
     = (if m = n then attrs_of (nodes G) n ++ a else attrs_of (nodes G) m)"
  by (simp add: add_node_def attrs_of_update)

lemma node_ids_add_node: "node_ids (add_node G n a) = insert n (node_ids G)"
  by (simp add: node_ids_def add_node_def AList.dom_update)

lemma set_node_attr_Inr_iff:
  "set_node_attr G n k v = Inr G' \<longleftrightarrow>
     (\<exists>d. map_of (nodes G) n = Some d \<and> G' = G\<lparr>nodes := AList.update n (d(k \<mapsto> v)) (nodes G)\<rparr>)"
  by (auto simp: set_node_attr_def split: option.splits)

lemma set_node_attr_edges:
  "set_node_attr G n k v = Inr G' \<Longrightarrow> edges G' = edges G"
  by (auto simp: set_node_attr_Inr_iff)

lemma set_node_attr_keys:
  assumes "set_node_attr G n k v = Inr G'"
  shows "node_ids G' = node_ids G"
proof -
  from assms obtain d where d: "map_of (nodes G) n = Some d"
    and G': "G' = G\<lparr>nodes := AList.update n (d(k \<mapsto> v)) (nodes G)\<rparr>"
    by (auto simp: set_node_attr_Inr_iff)
  have "n \<in> node_ids G" using d by (simp add: node_ids_def map_of_Some_key)
  then show ?thesis by (auto simp: G' node_ids_def AList.dom_update)
qed

lemma set_node_attr_attrs:
  "set_node_attr G n k v = Inr G' \<Longrightarrow>
     attrs_of (nodes G') m = (if m = n then (attrs_of (nodes G) n)(k \<mapsto> v) else attrs_of (nodes G) m)"
  by (auto simp: set_node_attr_Inr_iff attrs_of_update) (simp add: attrs_of_def)

lemma set_node_attr_dom:
  "set_node_attr G n k v = Inr G' \<Longrightarrow> dom (attrs_of (nodes G) m) \<subseteq> dom (attrs_of (nodes G') m)"
  by (auto simp: set_node_attr_attrs)

lemma update_node_shape_edges:
  "update_node_shape G n t = Inr G' \<Longrightarrow> edges G' = edges G"
  by (auto simp: update_node_shape_def bindE_Inr_iff set_node_attr_edges split: if_splits)

lemma update_node_shape_keys:
  "update_node_shape G n t = Inr G' \<Longrightarrow> node_ids G' = node_ids G"
  by (auto simp: update_node_shape_def bindE_Inr_iff split: if_splits dest!: set_node_attr_keys)

lemma update_node_shape_dom:
  "update_node_shape G n t = Inr G' \<Longrightarrow> dom (attrs_of (nodes G) m) \<subseteq> dom (attrs_of (nodes G') m)"
  by (auto simp: update_node_shape_def bindE_Inr_iff split: if_splits dest!: set_node_attr_dom)

lemma foldE_append: "foldE f (xs @ ys) s = bindE (foldE f xs s) (foldE f ys)"
  by (induction xs arbitrary: s) (auto split: sum.splits)

lemma foldE_invariant:
  assumes "foldE f xs s = Inr s'" and "I s"
    and "\<And>x t t'. x \<in> set xs \<Longrightarrow> I t \<Longrightarrow> f x t = Inr t' \<Longrightarrow> I t'"
  shows "I s'"
  using assms
proof (induction xs arbitrary: s)
  case Nil
  then show ?case by simp
next
  case (Cons x xs)
  from Cons.prems(1) obtain t where t: "f x s = Inr t" and r: "foldE f xs t = Inr s'"
    by (auto split: sum.splits)
  have "I t" using Cons.prems(2,3) t by auto
  then show ?case using Cons.IH [OF r] Cons.prems(3) by auto
qed

lemma foldE_step:
  assumes "foldE f xs s = Inr s'" and "x \<in> set xs" and "I s"
    and "\<And>y t t'. y \<in> set xs \<Longrightarrow> I t \<Longrightarrow> f y t = Inr t' \<Longrightarrow> I t'"
  shows "\<exists>t t'. I t \<and> f x t = Inr t'"
  using assms
proof (induction xs arbitrary: s)
  case Nil
  then show ?case by simp
next
  case (Cons y ys)
  from Cons.prems(1) obtain t where t: "f y s = Inr t" and r: "foldE f ys t = Inr s'"
    by (auto split: sum.splits)
  show ?case
  proof (cases "x = y")
    case True
    then show ?thesis using t Cons.prems(3) by auto
  next
    case False
    then have m: "x \<in> set ys" using Cons.prems(2) by simp
    have i: "I t" using Cons.prems(3,4) t by auto
    have p: "\<And>z u u'. z \<in> set ys \<Longrightarrow> I u \<Longrightarrow> f z u = Inr u' \<Longrightarrow> I u'"
      by (meson Cons.prems(4) list.set_intros(2))
    show ?thesis by (rule Cons.IH [OF r m i p])
  qed
qed

lemma add_projection_Inr:
  assumes "add_projection X G proj nst net = Inr (G', nst')"
  shows "\<exists>pre post a S cat.
           presynaptic proj = Some pre \<and> postsynaptic proj = Some post
         \<and> get_edge_attributes X (synapse_type_of proj) proj (style_of proj) net = Inr a
         \<and> map_of nst pre = Some (TSet S) \<and> a ''synapse_category'' = Some cat
         \<and> nst' = AList.update pre (TSet (insert cat S)) nst
         \<and> G' = (if directionality proj = Some ''bidirectional''
                 then add_edge (add_edge G pre post a) post pre a
                 else add_edge G pre post a)"
proof -
  from assms obtain pre post a t cat t' where
    1: "presynaptic proj = Some pre" "postsynaptic proj = Some post"
       "get_edge_attributes X (synapse_type_of proj) proj (style_of proj) net = Inr a"
       "map_of nst pre = Some t" "a ''synapse_category'' = Some cat" "set_add t cat = Inr t'"
    and 2: "(G', nst') = (if directionality proj = Some ''bidirectional''
                 then (add_edge (add_edge G pre post a) post pre a, AList.update pre t' nst)
                 else (add_edge G pre post a, AList.update pre t' nst))"
    by (auto simp: add_projection_def bindE_Inr_iff dict_get_Inr_iff dict_lookup_Inr_iff Let_def
        split: if_splits)
  from 1(6) obtain S where "t = TSet S" "t' = TSet (insert cat S)"
    by (cases t) auto
  with 1 2 show ?thesis by (auto split: if_splits)
qed

subsection \<open>What the build keeps true\<close>

lemma input_edge_keys_subset: "input_edge_keys \<subseteq> edge_keys"
  by (auto simp: input_edge_keys_def edge_keys_def)

lemma nodes_ok_add_edge: "nodes_ok N G \<Longrightarrow> nodes_ok N (add_edge G u v a)"
  by (simp add: nodes_ok_def node_ids_add_edge)

lemma nodes_ok_add_node:
  "nodes_ok N G \<Longrightarrow> node_keys \<subseteq> dom a \<Longrightarrow> nodes_ok (insert n N) (add_node G n a)"
  by (auto simp: nodes_ok_def node_ids_add_node attrs_of_nodes_add_node)

lemma nodes_ok_update_node_shape:
  assumes "nodes_ok N G" and "update_node_shape G n t = Inr G'"
  shows "nodes_ok N G'"
  unfolding nodes_ok_def
proof
  fix m assume "m \<in> N"
  then have "m \<in> node_ids G" "node_keys \<subseteq> dom (attrs_of (nodes G) m)"
    using assms(1) by (auto simp: nodes_ok_def)
  then show "m \<in> node_ids G' \<and> node_keys \<subseteq> dom (attrs_of (nodes G') m)"
    using update_node_shape_keys [OF assms(2)] update_node_shape_dom [OF assms(2), of m] by auto
qed

lemma edges_ok_add_edge:
  assumes "edges_ok I G" and "edge_keys \<subseteq> dom a"
  shows "edges_ok I (add_edge G u v a)"
  using assms input_edge_keys_subset
  by (auto simp: edges_ok_def edge_ids_add_edge attrs_of_edges_add_edge)

lemma edges_ok_add_input_edge:
  assumes "edges_ok I G" and "input_edge_keys \<subseteq> dom a" and "u \<in> I"
  shows "edges_ok I (add_edge G u v a)"
  using assms
  by (auto simp: edges_ok_def edge_ids_add_edge attrs_of_edges_add_edge)

lemma edges_ok_same_edges: "edges_ok I G \<Longrightarrow> edges G' = edges G \<Longrightarrow> edges_ok I G'"
  by (simp add: edges_ok_def edge_ids_def)

subsection \<open>The loop over the populations\<close>

lemma add_population_Inr:
  assumes "add_population X (pid, pop) G = Inr G'"
  shows "\<exists>a. dom a = node_keys \<and> G' = add_node G pid a"
proof -
  from assms obtain col sz where
    "G' = add_node G pid [''color'' \<mapsto> VColor col, ''shape'' \<mapsto> VStr (node_shapes ''generic''),
                           ''size'' \<mapsto> VNum sz]"
    by (auto simp: add_population_def bindE_Inr_iff)
  moreover have "dom [''color'' \<mapsto> VColor col, ''shape'' \<mapsto> VStr (node_shapes ''generic''),
                      ''size'' \<mapsto> VNum sz] = node_keys"
    by (auto simp: node_keys_def)
  ultimately show ?thesis by blast
qed

lemma add_populations_Inr:
  assumes "foldE (add_population X) pops G = Inr G'"
  shows "edges G' = edges G \<and> node_ids G' = node_ids G \<union> fst ` set pops
         \<and> (nodes_ok N G \<longrightarrow> nodes_ok (N \<union> fst ` set pops) G')"
  using assms
proof (induction pops arbitrary: G N)
  case Nil
  then show ?case by simp
next
  case (Cons p pops)
  obtain pid pop where p: "p = (pid, pop)" by (cases p)
  from Cons.prems obtain G1 where 1: "add_population X (pid, pop) G = Inr G1"
    and 2: "foldE (add_population X) pops G1 = Inr G'"
    by (auto simp: p split: sum.splits)
  from add_population_Inr [OF 1] obtain a where a: "dom a = node_keys" "G1 = add_node G pid a"
    by blast
  have ok: "nodes_ok N G \<Longrightarrow> nodes_ok (insert pid N) G1"
    using a by (simp add: nodes_ok_add_node)
  show ?case
    using Cons.IH [OF 2, of "insert pid N"] a ok
    by (auto simp: p node_ids_add_node)
qed

subsection \<open>The block of the inputs\<close>

lemma add_input_Inr:
  assumes "add_input X net (iid, info) (G, nst) = Inr (G', nst')"
  shows "\<exists>a t b. dom a = node_keys \<and> dom b = input_edge_keys
           \<and> G' = add_edge (add_node G iid a) iid t b
           \<and> nst' = AList.update iid (TStr ''dummy'') nst"
proof -
  let ?b = "[''synapse'' \<mapsto> VStr ''input'', ''style'' \<mapsto> VStr ''solid'',
             ''arrowstyle'' \<mapsto> VStr ''->'', ''color'' \<mapsto> VStr ''yellow'']"
  from assms obtain col t where
    G': "G' = add_edge (add_node G iid [''color'' \<mapsto> VColor col,
                 ''shape'' \<mapsto> VStr (node_shapes ''input''), ''size'' \<mapsto> VNum (PyInt 2)]) iid t ?b"
    and n: "nst' = AList.update iid (TStr ''dummy'') nst"
    by (auto simp: add_input_def add_input_edge_def bindE_Inr_iff Let_def)
  have "dom [''color'' \<mapsto> VColor col, ''shape'' \<mapsto> VStr (node_shapes ''input''),
             ''size'' \<mapsto> VNum (PyInt 2)] = node_keys"
    by (auto simp: node_keys_def)
  moreover have "dom ?b = input_edge_keys"
    by (auto simp: input_edge_keys_def)
  ultimately show ?thesis using G' n by blast
qed

lemma nst_ok_dummy: "nst_ok P nst \<Longrightarrow> nst_ok P (AList.update i (TStr t) nst)"
  by (auto simp: nst_ok_def AList.update_conv')

lemma add_input_inv:
  assumes "add_input X net x (G, nst) = Inr (G', nst')" and "fst x \<in> I"
  shows "(nodes_ok N G \<longrightarrow> nodes_ok (insert (fst x) N) G')
       \<and> (edges_ok I G \<longrightarrow> edges_ok I G')
       \<and> (nst_ok P nst \<longrightarrow> nst_ok P nst')
       \<and> (distinct (map fst (edges G)) \<longrightarrow> distinct (map fst (edges G')))"
proof -
  obtain iid info where x: "x = (iid, info)" by (cases x)
  from add_input_Inr [OF assms(1) [unfolded x]] obtain a t b where
    *: "dom a = node_keys" "dom b = input_edge_keys" "G' = add_edge (add_node G iid a) iid t b"
       "nst' = AList.update iid (TStr ''dummy'') nst"
    by blast
  have e: "edges_ok I G \<Longrightarrow> edges_ok I (add_node G iid a)"
    by (rule edges_ok_same_edges) simp_all
  show ?thesis
    using * assms(2) e
    by (auto simp: x nodes_ok_add_edge nodes_ok_add_node edges_ok_add_input_edge nst_ok_dummy
        intro!: distinct_edges_add_edge)
qed

lemma add_inputs_fold:
  assumes "foldE (add_input X net) ins (G, nst) = Inr (G', nst')" and "fst ` set ins \<subseteq> I"
  shows "(nodes_ok N G \<longrightarrow> nodes_ok (N \<union> fst ` set ins) G')
       \<and> (edges_ok I G \<longrightarrow> edges_ok I G')
       \<and> (nst_ok P nst \<longrightarrow> nst_ok P nst')
       \<and> (distinct (map fst (edges G)) \<longrightarrow> distinct (map fst (edges G')))"
  using assms
proof (induction ins arbitrary: G nst N)
  case Nil
  then show ?case by simp
next
  case (Cons x ins)
  from Cons.prems(1) obtain G1 nst1 where 1: "add_input X net x (G, nst) = Inr (G1, nst1)"
    and 2: "foldE (add_input X net) ins (G1, nst1) = Inr (G', nst')"
    by (auto split: sum.splits)
  have xI: "fst x \<in> I" and rest: "fst ` set ins \<subseteq> I"
    using Cons.prems(2) by auto
  show ?case
    using add_input_inv [OF 1 xI, of N P] Cons.IH [OF 2 rest, of "insert (fst x) N"]
    by auto
qed

lemma update_node_shapes_Inr:
  assumes "update_node_shapes G nst = Inr G'"
  shows "edges G' = edges G \<and> (nodes_ok N G \<longrightarrow> nodes_ok N G')"
  using assms unfolding update_node_shapes_def
proof (induction nst arbitrary: G)
  case Nil
  then show ?case by simp
next
  case (Cons x nst)
  obtain n t where x: "x = (n, t)" by (cases x)
  from Cons.prems obtain G1 where 1: "update_node_shape G n t = Inr G1"
    and 2: "foldE (\<lambda>(node, types) G'. update_node_shape G' node types) nst G1 = Inr G'"
    by (auto simp: x split: sum.splits)
  show ?case
    using Cons.IH [OF 2] update_node_shape_edges [OF 1] nodes_ok_update_node_shape [OF _ 1, of N]
    by auto
qed

lemma add_inputs_inv:
  assumes "add_inputs X net (G, nst) = Inr (G', nst')"
  shows "(nodes_ok N G \<longrightarrow> nodes_ok (N \<union> input_ids net) G')
       \<and> (edges_ok (input_ids net) G \<longrightarrow> edges_ok (input_ids net) G')
       \<and> (nst_ok P nst \<longrightarrow> nst_ok P nst')
       \<and> (distinct (map fst (edges G)) \<longrightarrow> distinct (map fst (edges G')))"
proof (cases "inputs net")
  case None
  then show ?thesis using assms by (simp add: add_inputs_def input_ids_def)
next
  case (Some ins)
  show ?thesis
  proof (cases ins)
    case Nil
    then show ?thesis using assms Some by (simp add: add_inputs_def input_ids_def)
  next
    case (Cons i ins')
    from assms obtain G2 where
      1: "foldE (add_input X net) ins (G, nst) = Inr (G2, nst')"
      and 2: "update_node_shapes G2 nst' = Inr G'"
      by (auto simp: add_inputs_def Some Cons bindE_Inr_iff)
    have I: "fst ` set ins \<subseteq> input_ids net" "input_ids net = fst ` set ins"
      by (simp_all add: input_ids_def Some)
    show ?thesis
      using add_inputs_fold [OF 1 I(1), of N P] update_node_shapes_Inr [OF 2, of "N \<union> fst ` set ins"]
        edges_ok_same_edges [of "input_ids net" G2 G'] I(2)
      by auto
  qed
qed

subsection \<open>The loop over the projections\<close>

lemma nst_ok_add:
  assumes "nst_ok P nst" and "map_of nst pre = Some (TSet S)"
  shows "nst_ok P (AList.update pre (TSet S') nst)"
  using assms by (auto simp: nst_ok_def AList.update_conv')

lemma proj_step_inv:
  assumes "proj_step X net proj (G, nst) = Inr (G', nst')"
  shows "(nodes_ok N G \<longrightarrow> nodes_ok N G')
       \<and> (edges_ok I G \<longrightarrow> edges_ok I G')
       \<and> (nst_ok P nst \<longrightarrow> nst_ok P nst')
       \<and> (distinct (map fst (edges G)) \<longrightarrow> distinct (map fst (edges G')))"
proof -
  from assms have "add_projection X G proj nst net = Inr (G', nst')"
    by (simp add: proj_step_def)
  from add_projection_Inr [OF this] obtain pre post a S cat where
    *: "get_edge_attributes X (synapse_type_of proj) proj (style_of proj) net = Inr a"
       "map_of nst pre = Some (TSet S)"
       "nst' = AList.update pre (TSet (insert cat S)) nst"
       "G' = (if directionality proj = Some ''bidirectional''
              then add_edge (add_edge G pre post a) post pre a
              else add_edge G pre post a)"
    by blast
  have a: "edge_keys \<subseteq> dom a"
    using get_edge_attributes_dom [OF *(1)] by simp
  show ?thesis
    using * a
    by (auto simp: nodes_ok_add_edge edges_ok_add_edge nst_ok_add intro!: distinct_edges_add_edge)
qed

lemma proj_step_build_inv:
  assumes "build_inv net s" and "proj_step X net proj s = Inr s'"
  shows "build_inv net s'"
proof -
  obtain G nst G' nst' where s: "s = (G, nst)" "s' = (G', nst')"
    by (cases s, cases s') auto
  show ?thesis
    using assms
      proj_step_inv [OF assms(2) [unfolded s], of "pop_ids net \<union> input_ids net" "input_ids net"
        "pop_ids net"]
    by (simp add: build_inv_def s)
qed

lemma create_graph_state_Inr:
  assumes "create_graph_state X ((nid, net) # rest) = Inr s"
  shows "\<exists>pops G1 s3 projs.
           populations net = Some pops \<and> foldE (add_population X) pops empty_graph = Inr G1
         \<and> add_inputs X net (G1, map (\<lambda>(node, _). (node, TSet {})) (nodes G1)) = Inr s3
         \<and> projections net = Some projs
         \<and> foldE (proj_step X net) (map snd projs) s3 = Inr s"
  using assms
  by (auto simp: create_graph_state_def bindE_Inr_iff dict_get_Inr_iff)

lemma create_graph_state_phases:
  assumes "create_graph_state X ((nid, net) # rest) = Inr s"
  shows "\<exists>s3 projs. build_inv net s3 \<and> projections net = Some projs
           \<and> foldE (proj_step X net) (map snd projs) s3 = Inr s"
proof -
  from create_graph_state_Inr [OF assms] obtain pops G1 s3 projs where
    1: "populations net = Some pops" "foldE (add_population X) pops empty_graph = Inr G1"
       "add_inputs X net (G1, map (\<lambda>(node, _). (node, TSet {})) (nodes G1)) = Inr s3"
       "projections net = Some projs" "foldE (proj_step X net) (map snd projs) s3 = Inr s"
    by blast
  obtain G3 nst3 where s3: "s3 = (G3, nst3)" by (cases s3)
  have P: "pop_ids net = fst ` set pops"
    by (simp add: pop_ids_def 1(1))
  have e0: "nodes_ok {} empty_graph" "edges empty_graph = []" "node_ids empty_graph = {}"
    by (simp_all add: nodes_ok_def empty_graph_def node_ids_def)
  from add_populations_Inr [OF 1(2), of "{}"] e0
  have G1: "edges G1 = []" "node_ids G1 = pop_ids net" "nodes_ok (pop_ids net) G1"
    by (simp_all add: P)
  have "fst ` set (map (\<lambda>(node, _). (node, TSet {})) (nodes G1)) = node_ids G1"
    by (force simp: node_ids_def)
  then have n1: "nst_ok (pop_ids net) (map (\<lambda>(node, _). (node, TSet {})) (nodes G1))"
    unfolding nst_ok_def using G1(2) by (metis map_of_Some_key)
  have e1: "edges_ok (input_ids net) G1" "distinct (map fst (edges G1))"
    using G1(1) by (simp_all add: edges_ok_def edge_ids_def)
  have "build_inv net s3"
    using add_inputs_inv [OF 1(3) [unfolded s3], of "pop_ids net" "pop_ids net"] G1(3) n1 e1
    by (simp add: build_inv_def s3)
  then show ?thesis using 1(4,5) by blast
qed

lemma create_graph_state_build_inv:
  assumes "create_graph_state X ((nid, net) # rest) = Inr s"
  shows "build_inv net s"
proof -
  from create_graph_state_phases [OF assms] obtain s3 projs where
    1: "build_inv net s3" "projections net = Some projs"
       "foldE (proj_step X net) (map snd projs) s3 = Inr s"
    by blast
  show ?thesis
    by (rule foldE_invariant [where I = "build_inv net", OF 1(3) 1(1)])
       (rule proj_step_build_inv)
qed

subsection \<open>Which projection wrote an edge\<close>

lemma proj_step_writes:
  assumes "proj_step X net proj (G, nst) = Inr (G', nst')" and "writes_edge proj e"
  shows "e \<in> edge_ids G'
       \<and> (\<exists>a. get_edge_attributes X (synapse_type_of proj) proj (style_of proj) net = Inr a
              \<and> (\<forall>k \<in> edge_keys. attrs_of (edges G') e k = a k))"
proof -
  from assms(1) have "add_projection X G proj nst net = Inr (G', nst')"
    by (simp add: proj_step_def)
  from add_projection_Inr [OF this] obtain pre post a where
    *: "presynaptic proj = Some pre" "postsynaptic proj = Some post"
       "get_edge_attributes X (synapse_type_of proj) proj (style_of proj) net = Inr a"
    and G': "G' = (if directionality proj = Some ''bidirectional''
              then add_edge (add_edge G pre post a) post pre a
              else add_edge G pre post a)"
    by blast
  have d: "(m ++ a) k = a k" if "k \<in> edge_keys" for k m
    using that get_edge_attributes_dom [OF *(3)] by (auto simp: map_add_def split: option.splits)
  have "e \<in> edge_ids G' \<and> (\<forall>k \<in> edge_keys. attrs_of (edges G') e k = a k)"
  proof (cases "directionality proj = Some ''bidirectional''")
    case True
    then have G: "G' = add_edge (add_edge G pre post a) post pre a"
      using G' by simp
    have "e = (pre, post) \<or> e = (post, pre)"
      using assms(2) *(1,2) by (cases e) (auto simp: writes_edge_def)
    then show ?thesis
      by (auto simp: G edge_ids_add_edge attrs_of_edges_add_edge d)
  next
    case False
    then have G: "G' = add_edge G pre post a"
      using G' by simp
    have "e = (pre, post)"
      using assms(2) *(1,2) False by (cases e) (auto simp: writes_edge_def)
    then show ?thesis
      by (auto simp: G edge_ids_add_edge attrs_of_edges_add_edge d)
  qed
  then show ?thesis using *(3) by blast
qed

lemma proj_step_not_writes:
  assumes "proj_step X net proj (G, nst) = Inr (G', nst')" and "\<not> writes_edge proj e"
  shows "attrs_of (edges G') e = attrs_of (edges G) e \<and> (e \<in> edge_ids G' \<longleftrightarrow> e \<in> edge_ids G)"
proof -
  from assms(1) have "add_projection X G proj nst net = Inr (G', nst')"
    by (simp add: proj_step_def)
  from add_projection_Inr [OF this] obtain pre post a where
    *: "presynaptic proj = Some pre" "postsynaptic proj = Some post"
    and G': "G' = (if directionality proj = Some ''bidirectional''
              then add_edge (add_edge G pre post a) post pre a
              else add_edge G pre post a)"
    by blast
  show ?thesis
  proof (cases "directionality proj = Some ''bidirectional''")
    case True
    then have G: "G' = add_edge (add_edge G pre post a) post pre a"
      using G' by simp
    have "e \<noteq> (pre, post)" "e \<noteq> (post, pre)"
      using assms(2) * True by (auto simp: writes_edge_def)
    then show ?thesis
      by (simp add: G attrs_of_edges_add_edge edge_ids_add_edge)
  next
    case False
    then have G: "G' = add_edge G pre post a"
      using G' by simp
    have "e \<noteq> (pre, post)"
      using assms(2) * by (auto simp: writes_edge_def)
    then show ?thesis
      by (simp add: G attrs_of_edges_add_edge edge_ids_add_edge)
  qed
qed

lemma proj_fold_not_writes:
  assumes "foldE (proj_step X net) qs (G, nst) = Inr (G', nst')"
    and "\<forall>q \<in> set qs. \<not> writes_edge q e"
  shows "attrs_of (edges G') e = attrs_of (edges G) e \<and> (e \<in> edge_ids G' \<longleftrightarrow> e \<in> edge_ids G)"
  using assms
proof (induction qs arbitrary: G nst)
  case Nil
  then show ?case by simp
next
  case (Cons q qs)
  from Cons.prems(1) obtain G1 nst1 where 1: "proj_step X net q (G, nst) = Inr (G1, nst1)"
    and 2: "foldE (proj_step X net) qs (G1, nst1) = Inr (G', nst')"
    by (auto split: sum.splits)
  have "\<not> writes_edge q e" "\<forall>r \<in> set qs. \<not> writes_edge r e"
    using Cons.prems(2) by auto
  then show ?case
    using proj_step_not_writes [OF 1, of e] Cons.IH [OF 2] by simp
qed

lemma last_writer:
  assumes "create_graph_state X ((nid, net) # rest) = Inr (G, nst)"
    and "projections net = Some (ps @ (pid, proj) # qs)"
    and "writes_edge proj e"
    and "\<forall>q \<in> snd ` set qs. \<not> writes_edge q e"
  shows "e \<in> edge_ids G
       \<and> (\<exists>a. get_edge_attributes X (synapse_type_of proj) proj (style_of proj) net = Inr a
              \<and> (\<forall>k \<in> edge_keys. attrs_of (edges G) e k = a k))"
proof -
  from create_graph_state_phases [OF assms(1)] assms(2) obtain s3 where
    "foldE (proj_step X net) (map snd ps @ proj # map snd qs) s3 = Inr (G, nst)"
    by auto
  then obtain t where "foldE (proj_step X net) (proj # map snd qs) t = Inr (G, nst)"
    by (auto simp: foldE_append bindE_Inr_iff)
  then obtain G1 nst1 where 1: "proj_step X net proj t = Inr (G1, nst1)"
    and 2: "foldE (proj_step X net) (map snd qs) (G1, nst1) = Inr (G, nst)"
    by (auto split: sum.splits)
  obtain G0 nst0 where t: "t = (G0, nst0)" by (cases t)
  have q: "\<forall>q \<in> set (map snd qs). \<not> writes_edge q e"
    using assms(4) by simp
  show ?thesis
    using proj_step_writes [OF 1 [unfolded t] assms(3)] proj_fold_not_writes [OF 2 q]
    by simp
qed

lemma count_distinct_keys:
  assumes "distinct (map fst es)" and "A \<subseteq> fst ` set es"
  shows "length (filter (\<lambda>x. fst x \<in> A) es) = card A"
proof -
  have "length (filter (\<lambda>x. fst x \<in> A) es) = length (filter (\<lambda>k. k \<in> A) (map fst es))"
    by (simp add: filter_map comp_def)
  also have "\<dots> = card ({k. k \<in> A} \<inter> set (map fst es))"
    using assms(1) by (rule distinct_length_filter)
  also have "{k. k \<in> A} \<inter> set (map fst es) = A"
    using assms(2) by auto
  finally show ?thesis .
qed

lemma proj_step_mono:
  assumes "proj_step X net proj (G, nst) = Inr (G', nst')"
  shows "(e \<in> edge_ids G \<longrightarrow> e \<in> edge_ids G')
       \<and> dom (attrs_of (edges G) e) \<subseteq> dom (attrs_of (edges G') e)"
proof -
  from assms have "add_projection X G proj nst net = Inr (G', nst')"
    by (simp add: proj_step_def)
  from add_projection_Inr [OF this] obtain pre post a where
    G': "G' = (if directionality proj = Some ''bidirectional''
              then add_edge (add_edge G pre post a) post pre a
              else add_edge G pre post a)"
    by blast
  have 1: "(e \<in> edge_ids H \<longrightarrow> e \<in> edge_ids (add_edge H u v a))
       \<and> dom (attrs_of (edges H) e) \<subseteq> dom (attrs_of (edges (add_edge H u v a)) e)" for H u v
    by (simp add: edge_ids_add_edge attrs_of_edges_add_edge)
  show ?thesis
  proof (cases "directionality proj = Some ''bidirectional''")
    case True
    then have G: "G' = add_edge (add_edge G pre post a) post pre a" using G' by simp
    show ?thesis
      unfolding G using 1 [of G pre post] 1 [of "add_edge G pre post a" post pre] by blast
  next
    case False
    then have G: "G' = add_edge G pre post a" using G' by simp
    show ?thesis unfolding G by (rule 1)
  qed
qed

lemma proj_fold_mono:
  assumes "foldE (proj_step X net) qs (G, nst) = Inr (G', nst')"
  shows "(e \<in> edge_ids G \<longrightarrow> e \<in> edge_ids G')
       \<and> dom (attrs_of (edges G) e) \<subseteq> dom (attrs_of (edges G') e)"
  using assms
proof (induction qs arbitrary: G nst)
  case Nil
  then show ?case by simp
next
  case (Cons q qs)
  from Cons.prems obtain G1 nst1 where 1: "proj_step X net q (G, nst) = Inr (G1, nst1)"
    and 2: "foldE (proj_step X net) qs (G1, nst1) = Inr (G', nst')"
    by (auto split: sum.splits)
  show ?case
    using proj_step_mono [OF 1, of e] Cons.IH [OF 2] by blast
qed

lemma written_edge_kept:
  assumes "create_graph_state X ((nid, net) # rest) = Inr (G, nst)"
    and "projections net = Some (ps @ (pid, proj) # qs)"
    and "writes_edge proj e"
  shows "e \<in> edge_ids G \<and> edge_keys \<subseteq> dom (attrs_of (edges G) e)"
proof -
  from create_graph_state_phases [OF assms(1)] assms(2) obtain s3 where
    "foldE (proj_step X net) (map snd ps @ proj # map snd qs) s3 = Inr (G, nst)"
    by auto
  then obtain t where "foldE (proj_step X net) (proj # map snd qs) t = Inr (G, nst)"
    by (auto simp: foldE_append bindE_Inr_iff)
  then obtain G1 nst1 where 1: "proj_step X net proj t = Inr (G1, nst1)"
    and 2: "foldE (proj_step X net) (map snd qs) (G1, nst1) = Inr (G, nst)"
    by (auto split: sum.splits)
  obtain G0 nst0 where t: "t = (G0, nst0)" by (cases t)
  from proj_step_writes [OF 1 [unfolded t] assms(3)] obtain a where
    a: "e \<in> edge_ids G1"
       "get_edge_attributes X (synapse_type_of proj) proj (style_of proj) net = Inr a"
       "\<forall>k \<in> edge_keys. attrs_of (edges G1) e k = a k"
    by blast
  have "edge_keys \<subseteq> dom (attrs_of (edges G1) e)"
  proof
    fix k assume k: "k \<in> edge_keys"
    then have "k \<in> dom a" using get_edge_attributes_dom [OF a(2)] by simp
    then obtain v where "a k = Some v" by blast
    then have "attrs_of (edges G1) e k = Some v" using a(3) k by simp
    then show "k \<in> dom (attrs_of (edges G1) e)" by blast
  qed
  then show ?thesis
    using a(1) proj_fold_mono [OF 2, of e] by blast
qed

lemma add_projection_unknown_pre:
  assumes "presynaptic proj = Some pre" and "pre \<notin> P" and "nst_ok P nst"
  shows "\<exists>e. add_projection X G proj nst net = Inl e"
proof (cases "add_projection X G proj nst net")
  case (Inl e)
  then show ?thesis by blast
next
  case (Inr r)
  obtain G' nst' where "r = (G', nst')" by (cases r)
  with Inr have "add_projection X G proj nst net = Inr (G', nst')" by simp
  from add_projection_Inr [OF this] assms(1) obtain S where "map_of nst pre = Some (TSet S)"
    by auto
  then have "pre \<in> P" using assms(3) by (auto simp: nst_ok_def)
  then show ?thesis using assms(2) by simp
qed

lemma update_node_shape_generic:
  "update_node_shape G n (TSet (insert (VStr ''generic'') S)) = update_node_shape G n (TSet S)"
  by (simp add: update_node_shape_def)

subsection \<open>The edges of the inputs\<close>

lemma attrs_of_missing:
  assumes "e \<notin> edge_ids G"
  shows "attrs_of (edges G) e = Map.empty"
proof -
  have "map_of (edges G) e = None"
    using assms by (simp add: edge_ids_def map_of_eq_None_iff)
  then show ?thesis by (simp add: attrs_of_def)
qed

lemma add_input_Inr_target:
  assumes "add_input X net (iid, info) (G, nst) = Inr (G', nst')"
  shows "\<exists>a t b. population info = Some t \<and> dom b = input_edge_keys
           \<and> G' = add_edge (add_node G iid a) iid t b"
proof -
  let ?b = "[''synapse'' \<mapsto> VStr ''input'', ''style'' \<mapsto> VStr ''solid'',
             ''arrowstyle'' \<mapsto> VStr ''->'', ''color'' \<mapsto> VStr ''yellow'']"
  from assms obtain a t where t: "population info = Some t"
    and G': "G' = add_edge (add_node G iid a) iid t ?b"
    by (auto simp: add_input_def add_input_edge_def bindE_Inr_iff dict_get_Inr_iff Let_def)
  have "dom ?b = input_edge_keys"
    by (auto simp: input_edge_keys_def)
  then show ?thesis using t G' by blast
qed

lemma add_input_exact:
  assumes "add_input X net (iid, info) (G, nst) = Inr (G', nst')" and "input_edges_only G"
  shows "input_edges_only G' \<and> edge_ids G \<subseteq> edge_ids G'
       \<and> (\<forall>t. population info = Some t \<longrightarrow> (iid, t) \<in> edge_ids G')"
proof -
  from add_input_Inr_target [OF assms(1)] obtain a t b where
    t: "population info = Some t" and b: "dom b = input_edge_keys"
    and G': "G' = add_edge (add_node G iid a) iid t b"
    by blast
  let ?H = "add_node G iid a"
  have H: "edge_ids ?H = edge_ids G" "edges ?H = edges G"
    by (simp_all add: edge_ids_def)
  have old: "dom (attrs_of (edges G) (iid, t)) \<subseteq> input_edge_keys"
  proof (cases "(iid, t) \<in> edge_ids G")
    case True
    then show ?thesis using assms(2) by (simp add: input_edges_only_def)
  next
    case False
    then show ?thesis by (simp add: attrs_of_missing)
  qed
  have new: "dom (attrs_of (edges G) (iid, t) ++ b) = input_edge_keys"
    using old b by auto
  have 1: "input_edges_only G'"
    unfolding input_edges_only_def
  proof
    fix e assume "e \<in> edge_ids G'"
    then have e: "e = (iid, t) \<or> e \<in> edge_ids G"
      by (simp add: G' edge_ids_add_edge H)
    show "dom (attrs_of (edges G') e) = input_edge_keys"
    proof (cases "e = (iid, t)")
      case True
      then show ?thesis using new by (simp add: G' attrs_of_edges_add_edge)
    next
      case False
      then have "e \<in> edge_ids G" using e by simp
      then show ?thesis
        using assms(2) False by (simp add: G' attrs_of_edges_add_edge input_edges_only_def)
    qed
  qed
  have 2: "edge_ids G \<subseteq> edge_ids G'" "(iid, t) \<in> edge_ids G'"
    by (auto simp: G' edge_ids_add_edge H)
  from 1 2 t show ?thesis by simp
qed

lemma add_inputs_fold_exact:
  assumes "foldE (add_input X net) ins (G, nst) = Inr (G', nst')" and "input_edges_only G"
  shows "input_edges_only G' \<and> edge_ids G \<subseteq> edge_ids G'
       \<and> (\<forall>x \<in> set ins. \<forall>t. population (snd x) = Some t \<longrightarrow> (fst x, t) \<in> edge_ids G')"
  using assms
proof (induction ins arbitrary: G nst)
  case Nil
  then show ?case by simp
next
  case (Cons x ins)
  obtain iid info where x: "x = (iid, info)" by (cases x)
  from Cons.prems(1) obtain G1 nst1 where 1: "add_input X net (iid, info) (G, nst) = Inr (G1, nst1)"
    and 2: "foldE (add_input X net) ins (G1, nst1) = Inr (G', nst')"
    by (auto simp: x split: sum.splits)
  from add_input_exact [OF 1 Cons.prems(2)] have
    a: "input_edges_only G1" "edge_ids G \<subseteq> edge_ids G1"
       "\<forall>t. population info = Some t \<longrightarrow> (iid, t) \<in> edge_ids G1"
    by simp_all
  from Cons.IH [OF 2 a(1)] have
    b: "input_edges_only G'" "edge_ids G1 \<subseteq> edge_ids G'"
       "\<forall>y \<in> set ins. \<forall>t. population (snd y) = Some t \<longrightarrow> (fst y, t) \<in> edge_ids G'"
    by simp_all
  have "\<forall>t. population (snd x) = Some t \<longrightarrow> (fst x, t) \<in> edge_ids G'"
    using a(3) b(2) by (auto simp: x)
  then show ?case using a(2) b by auto
qed

lemma add_inputs_exact:
  assumes "add_inputs X net (G, nst) = Inr (G', nst')" and "input_edges_only G"
    and "inputs net = Some ins"
  shows "input_edges_only G'
       \<and> (\<forall>x \<in> set ins. \<forall>t. population (snd x) = Some t \<longrightarrow> (fst x, t) \<in> edge_ids G')"
proof (cases ins)
  case Nil
  then show ?thesis using assms by (simp add: add_inputs_def)
next
  case (Cons i ins')
  from assms(1) obtain G2 where
    1: "foldE (add_input X net) ins (G, nst) = Inr (G2, nst')"
    and 2: "update_node_shapes G2 nst' = Inr G'"
    by (auto simp: add_inputs_def assms(3) Cons bindE_Inr_iff)
  have e: "edges G' = edges G2"
    using update_node_shapes_Inr [OF 2] by simp
  then have "edge_ids G' = edge_ids G2" "input_edges_only G' = input_edges_only G2"
    by (simp_all add: edge_ids_def input_edges_only_def)
  then show ?thesis
    using add_inputs_fold_exact [OF 1 assms(2)] by simp
qed

lemma input_edge_exact:
  assumes "create_graph_state X ((nid, net) # rest) = Inr (G, nst)"
    and "inputs net = Some ins" and "(iid, info) \<in> set ins" and "population info = Some t"
    and "projections net = Some projs" and "\<forall>q \<in> snd ` set projs. \<not> writes_edge q (iid, t)"
  shows "(iid, t) \<in> edge_ids G \<and> dom (attrs_of (edges G) (iid, t)) = input_edge_keys"
proof -
  from create_graph_state_Inr [OF assms(1)] assms(5) obtain pops G1 s3 where
    1: "foldE (add_population X) pops empty_graph = Inr G1"
       "add_inputs X net (G1, map (\<lambda>(node, _). (node, TSet {})) (nodes G1)) = Inr s3"
       "foldE (proj_step X net) (map snd projs) s3 = Inr (G, nst)"
    by auto
  obtain G3 nst3 where s3: "s3 = (G3, nst3)" by (cases s3)
  have "edges G1 = []"
    using add_populations_Inr [OF 1(1), of "{}"] by (simp add: empty_graph_def)
  then have "input_edges_only G1"
    by (simp add: input_edges_only_def edge_ids_def)
  from add_inputs_exact [OF 1(2) [unfolded s3] this assms(2)] assms(3,4)
  have 3: "input_edges_only G3" "(iid, t) \<in> edge_ids G3"
    by auto
  have q: "\<forall>q \<in> set (map snd projs). \<not> writes_edge q (iid, t)"
    using assms(6) by simp
  from proj_fold_not_writes [OF 1(3) [unfolded s3] q] 3
  show ?thesis by (simp add: input_edges_only_def)
qed

section \<open>The label of an edge\<close>

text \<open>
  Claim C9. The info label of an edge is \<^verbatim>\<open>Weight: {w}, Delay: {d}\<close> when the projection
  has both a weight and a delay, \<^verbatim>\<open>Weight: {w}\<close> when it has only a weight,
  \<^verbatim>\<open>Delay: {d}\<close> when it has only a delay, and the empty string when it has neither,
  where \<^verbatim>\<open>{w}\<close> and \<^verbatim>\<open>{d}\<close> are the numbers as an f-string prints them; weight 5 and
  no delay give \<^verbatim>\<open>Weight: 5\<close>. Whatever the synapse kind, this label is the \<^verbatim>\<open>info\<close>
  attribute that \<^verbatim>\<open>_get_edge_attributes\<close> gives the edge.
\<close>

theorem format_edge_info_label:
  "format_edge_info X (proj\<lparr>weight := Some w, delay := Some d\<rparr>)
      = ''Weight: '' @ py_format X w @ '', Delay: '' @ py_format X d
   \<and> format_edge_info X (proj\<lparr>weight := Some w, delay := None\<rparr>) = ''Weight: '' @ py_format X w
   \<and> format_edge_info X (proj\<lparr>weight := None, delay := Some d\<rparr>) = ''Delay: '' @ py_format X d
   \<and> format_edge_info X (proj\<lparr>weight := None, delay := None\<rparr>) = []
   \<and> format_edge_info X (proj\<lparr>weight := Some (PyInt 5), delay := None\<rparr>) = ''Weight: 5''
   \<and> (\<forall>k style net a. get_edge_attributes X k proj style net = Inr a
         \<longrightarrow> a ''info'' = Some (VStr (format_edge_info X proj)))"
  by (simp add: format_edge_info_def str_int_def str_nat.simps digit_char_def
      get_edge_attributes_info)

theorem format_edge_info_label_witness:
  "\<exists>a. get_edge_attributes sample_ext ''ampaSyn''
          ((mk_proj ''P'' ''Q'' (Some ''ampaSyn'') None)\<lparr>weight := Some (PyInt 5), delay := None\<rparr>)
          ''solid'' (sample_net None []) = Inr a
       \<and> a ''info'' = Some (VStr ''Weight: 5'')"
  using format_edge_info_label
          [where X = sample_ext and proj = "mk_proj ''P'' ''Q'' (Some ''ampaSyn'') None"]
        format_edge_info_label
          [where X = sample_ext
             and proj = "(mk_proj ''P'' ''Q'' (Some ''ampaSyn'') None)
                           \<lparr>weight := Some (PyInt 5), delay := None\<rparr>"]
  by (simp add: get_edge_attributes_def mk_proj_def)

section \<open>The classification of a node\<close>

text \<open>
  Claim C4. For a node of the graph, \<^verbatim>\<open>_update_node_shapes\<close> decides in this order, the
  first match winning: a category set with both \<^verbatim>\<open>excitatory\<close> and \<^verbatim>\<open>inhibitory\<close> sets
  the shape to the generic one (\<^verbatim>\<open>s\<close>) and leaves the colour; with \<^verbatim>\<open>excitatory\<close> and
  not \<^verbatim>\<open>inhibitory\<close> it sets the excitatory shape (\<^verbatim>\<open>^\<close>) and the colour \<^verbatim>\<open>blue\<close>;
  with \<^verbatim>\<open>inhibitory\<close> and not \<^verbatim>\<open>excitatory\<close> the inhibitory shape (\<^verbatim>\<open>o\<close>) and the
  colour \<^verbatim>\<open>red\<close>; with \<^verbatim>\<open>dummy\<close> and neither of the two (also for the string
  \<^verbatim>\<open>'dummy'\<close> that marks an input node) the input shape (\<^verbatim>\<open>h\<close>), leaving the colour;
  and otherwise, the empty set included, the generic shape, leaving the colour.
\<close>

theorem update_node_shape_precedence:
  assumes "map_of (nodes G) n = Some d"
  shows "(VStr ''excitatory'' \<in> S \<and> VStr ''inhibitory'' \<in> S \<longrightarrow>
           update_node_shape G n (TSet S)
             = Inr (G\<lparr>nodes := AList.update n (d(''shape'' \<mapsto> VStr ''s'')) (nodes G)\<rparr>))
       \<and> (VStr ''excitatory'' \<in> S \<and> VStr ''inhibitory'' \<notin> S \<longrightarrow>
           update_node_shape G n (TSet S)
             = Inr (G\<lparr>nodes := AList.update n
                                (d(''shape'' \<mapsto> VStr ''^'', ''color'' \<mapsto> VStr ''blue''))
                                (nodes G)\<rparr>))
       \<and> (VStr ''excitatory'' \<notin> S \<and> VStr ''inhibitory'' \<in> S \<longrightarrow>
           update_node_shape G n (TSet S)
             = Inr (G\<lparr>nodes := AList.update n
                                (d(''shape'' \<mapsto> VStr ''o'', ''color'' \<mapsto> VStr ''red''))
                                (nodes G)\<rparr>))
       \<and> (VStr ''excitatory'' \<notin> S \<and> VStr ''inhibitory'' \<notin> S \<and> VStr ''dummy'' \<in> S \<longrightarrow>
           update_node_shape G n (TSet S)
             = Inr (G\<lparr>nodes := AList.update n (d(''shape'' \<mapsto> VStr ''h'')) (nodes G)\<rparr>))
       \<and> (VStr ''excitatory'' \<notin> S \<and> VStr ''inhibitory'' \<notin> S \<and> VStr ''dummy'' \<notin> S \<longrightarrow>
           update_node_shape G n (TSet S)
             = Inr (G\<lparr>nodes := AList.update n (d(''shape'' \<mapsto> VStr ''s'')) (nodes G)\<rparr>))
       \<and> update_node_shape G n (TStr ''dummy'')
             = Inr (G\<lparr>nodes := AList.update n (d(''shape'' \<mapsto> VStr ''h'')) (nodes G)\<rparr>)"
  using assms
  by (simp add: update_node_shape_def set_node_attr_def node_shapes_def AList.update_conv')

theorem update_node_shape_precedence_witness:
  "map_sum id (\<lambda>G. (node_attr G ''P'' ''shape'', node_attr G ''P'' ''color''))
       (update_node_shape sample_graph ''P'' (TSet {VStr ''excitatory'', VStr ''inhibitory''}))
     = Inr (Some (VStr ''s''), Some (VStr ''green''))
   \<and> map_sum id (\<lambda>G. (node_attr G ''P'' ''shape'', node_attr G ''P'' ''color''))
       (update_node_shape sample_graph ''P'' (TSet {VStr ''excitatory''}))
     = Inr (Some (VStr ''^''), Some (VStr ''blue''))
   \<and> map_sum id (\<lambda>G. (node_attr G ''P'' ''shape'', node_attr G ''P'' ''color''))
       (update_node_shape sample_graph ''P'' (TSet {VStr ''inhibitory''}))
     = Inr (Some (VStr ''o''), Some (VStr ''red''))
   \<and> map_sum id (\<lambda>G. (node_attr G ''P'' ''shape'', node_attr G ''P'' ''color''))
       (update_node_shape sample_graph ''P'' (TSet {VStr ''dummy''}))
     = Inr (Some (VStr ''h''), Some (VStr ''green''))
   \<and> map_sum id (\<lambda>G. (node_attr G ''P'' ''shape'', node_attr G ''P'' ''color''))
       (update_node_shape sample_graph ''P'' (TSet {}))
     = Inr (Some (VStr ''s''), Some (VStr ''green''))"
proof -
  let ?d = "[''color'' \<mapsto> VStr ''green'', ''shape'' \<mapsto> VStr ''s'']"
  have n: "map_of (nodes sample_graph) ''P'' = Some ?d"
    by (simp add: sample_graph_def)
  show ?thesis
    using update_node_shape_precedence [OF n, of "{VStr ''excitatory'', VStr ''inhibitory''}"]
          update_node_shape_precedence [OF n, of "{VStr ''excitatory''}"]
          update_node_shape_precedence [OF n, of "{VStr ''inhibitory''}"]
          update_node_shape_precedence [OF n, of "{VStr ''dummy''}"]
          update_node_shape_precedence [OF n, of "{}"]
    by (simp add: node_attr_def attrs_of_def AList.update_conv')
qed

section \<open>The attributes of an edge\<close>

text \<open>
  The dispatch of \<^verbatim>\<open>_get_edge_attributes\<close> for a projection that states its synapse kind:
  \<^verbatim>\<open>ampaSyn\<close> gives the arrow \<^verbatim>\<open>-|>\<close> (a filled triangle head), the colour \<^verbatim>\<open>blue\<close>
  and the category \<^verbatim>\<open>excitatory\<close>; \<^verbatim>\<open>gabaSyn\<close> gives no arrow, the colour \<^verbatim>\<open>red\<close>
  and the category \<^verbatim>\<open>inhibitory\<close>; any other kind, \<^verbatim>\<open>generic\<close> included, gives the
  arrow \<^verbatim>\<open>->\<close>, the converted colour that the presynaptic population declares, and the
  category \<^verbatim>\<open>generic\<close>.
\<close>

lemma get_edge_attributes_dispatch:
  "(synapse proj = Some ''ampaSyn'' \<longrightarrow>
      get_edge_attributes X ''ampaSyn'' proj style net
        = Inr [''synapse'' \<mapsto> VStr ''ampaSyn'', ''style'' \<mapsto> VStr style,
               ''arrowstyle'' \<mapsto> VStr ''-|>'', ''color'' \<mapsto> VStr ''blue'',
               ''info'' \<mapsto> VStr (format_edge_info X proj),
               ''synapse_category'' \<mapsto> VStr ''excitatory''])
   \<and> (synapse proj = Some ''gabaSyn'' \<longrightarrow>
      get_edge_attributes X ''gabaSyn'' proj style net
        = Inr [''synapse'' \<mapsto> VStr ''gabaSyn'', ''style'' \<mapsto> VStr style,
               ''arrowstyle'' \<mapsto> VNone, ''color'' \<mapsto> VStr ''red'',
               ''info'' \<mapsto> VStr (format_edge_info X proj),
               ''synapse_category'' \<mapsto> VStr ''inhibitory''])
   \<and> (synapse proj = Some k \<and> k \<noteq> ''ampaSyn'' \<and> k \<noteq> ''gabaSyn''
        \<and> populations net = Some pops \<and> presynaptic proj = Some pre \<and> map_of pops pre = Some pop
        \<and> properties pop = Some props \<and> color props = Some c \<and> convert_color X c = Inr col \<longrightarrow>
      get_edge_attributes X k proj style net
        = Inr [''synapse'' \<mapsto> VStr k, ''style'' \<mapsto> VStr style,
               ''arrowstyle'' \<mapsto> VStr ''->'', ''color'' \<mapsto> VColor col,
               ''info'' \<mapsto> VStr (format_edge_info X proj),
               ''synapse_category'' \<mapsto> VStr ''generic''])"
  by (simp add: get_edge_attributes_def dict_lookup_def)

lemma get_edge_attributes_dispatch_sample:
  "map_sum id (\<lambda>a. (a ''arrowstyle'', a ''color'', a ''synapse_category''))
      (get_edge_attributes sample_ext ''ampaSyn'' (mk_proj ''P'' ''Q'' (Some ''ampaSyn'') None)
         ''solid'' (sample_net None []))
     = Inr (Some (VStr ''-|>''), Some (VStr ''blue''), Some (VStr ''excitatory''))
   \<and> map_sum id (\<lambda>a. (a ''arrowstyle'', a ''color'', a ''synapse_category''))
      (get_edge_attributes sample_ext ''gabaSyn'' (mk_proj ''P'' ''Q'' (Some ''gabaSyn'') None)
         ''solid'' (sample_net None []))
     = Inr (Some VNone, Some (VStr ''red''), Some (VStr ''inhibitory''))
   \<and> map_sum id (\<lambda>a. (a ''arrowstyle'', a ''color'', a ''synapse_category''))
      (get_edge_attributes sample_ext ''generic'' (mk_proj ''P'' ''Q'' (Some ''generic'') None)
         ''solid'' (sample_net None []))
     = Inr (Some (VStr ''->''), Some (VColor (0, 0, 1, 1)), Some (VStr ''generic''))"
proof -
  have c: "convert_color sample_ext ''0 0 1'' = Inr (0, 0, 1, 1)"
    by (simp add: convert_color_def py_split_def is_space_def sample_ext_def)
  show ?thesis
    using get_edge_attributes_dispatch
            [where proj = "mk_proj ''P'' ''Q'' (Some ''ampaSyn'') None" and X = sample_ext
               and style = "''solid''" and net = "sample_net None []"]
          get_edge_attributes_dispatch
            [where proj = "mk_proj ''P'' ''Q'' (Some ''gabaSyn'') None" and X = sample_ext
               and style = "''solid''" and net = "sample_net None []"]
          get_edge_attributes_dispatch
            [where proj = "mk_proj ''P'' ''Q'' (Some ''generic'') None" and X = sample_ext
               and style = "''solid''" and net = "sample_net None []" and k = "''generic''"
               and pops = "[(''P'', sample_pop), (''Q'', sample_pop)]" and pre = "''P''"
               and pop = sample_pop and props = "\<lparr>color = Some ''0 0 1''\<rparr>"
               and c = "''0 0 1''" and col = "(0, 0, 1, 1)"]
          c
    by (simp add: mk_proj_def sample_net_def sample_pop_def)
qed

text \<open>
  Claim C5 says that the dispatch holds for every projection, the default kind
  \<^verbatim>\<open>generic\<close> included. The default kind is that of a projection with no \<^verbatim>\<open>synapse\<close>
  key: \<^verbatim>\<open>_add_projection\<close> takes \<^verbatim>\<open>generic\<close> for its kind, the last branch of
  \<^verbatim>\<open>_get_edge_attributes\<close> is chosen, and that branch reads \<^verbatim>\<open>proj['synapse']\<close> first.
  So for every such projection, and for the one from \<^verbatim>\<open>P\<close> to \<^verbatim>\<open>Q\<close> of the sample
  network, the resolver gives no attributes: it raises \<^verbatim>\<open>KeyError('synapse')\<close>.
\<close>

theorem get_edge_attributes_default_kind:
  "synapse_type_of (proj\<lparr>synapse := None\<rparr>) = ''generic''
   \<and> get_edge_attributes X (synapse_type_of (proj\<lparr>synapse := None\<rparr>)) (proj\<lparr>synapse := None\<rparr>)
         style net = Inl (KeyError ''synapse'')
   \<and> get_edge_attributes sample_ext (synapse_type_of (mk_proj ''P'' ''Q'' None None))
         (mk_proj ''P'' ''Q'' None None) (style_of (mk_proj ''P'' ''Q'' None None))
         (sample_net None [mk_proj ''P'' ''Q'' None None]) = Inl (KeyError ''synapse'')"
  by (simp add: synapse_type_of_def get_edge_attributes_def mk_proj_def)

text \<open>
  Claim C6 says that resolving the attributes never fails, a missing synapse kind counting
  as \<^verbatim>\<open>generic\<close>. \<^verbatim>\<open>_add_projection\<close> does take \<^verbatim>\<open>generic\<close> for a missing kind
  (\<^verbatim>\<open>proj.get('synapse', 'generic')\<close>), but each branch of \<^verbatim>\<open>_get_edge_attributes\<close>
  then reads \<^verbatim>\<open>proj['synapse']\<close>: for the projection from \<^verbatim>\<open>P\<close> to \<^verbatim>\<open>Q\<close> with no
  \<^verbatim>\<open>synapse\<close> key, the build ends with \<^verbatim>\<open>KeyError('synapse')\<close>.
\<close>

theorem create_graph_missing_synapse:
  "create_graph sample_ext [(''net'', sample_net None [mk_proj ''P'' ''Q'' None None])]
     = Inl (KeyError ''synapse'')"
  by (simp add: sample_defs eval_defs)

section \<open>The shape of a node at the end of the build\<close>

text \<open>
  Claim C1 says that the build ends by classifying every population from the categories of
  its outgoing projections, so that a population whose only projection is of kind
  \<^verbatim>\<open>ampaSyn\<close> ends with the excitatory shape. \<^verbatim>\<open>_create_graph\<close> collects the categories
  while it adds the projections, but calls \<^verbatim>\<open>_update_node_shapes\<close> before that loop, and
  only when the model has inputs. For the two populations \<^verbatim>\<open>P\<close> and \<^verbatim>\<open>Q\<close> and the one
  projection of kind \<^verbatim>\<open>ampaSyn\<close> from \<^verbatim>\<open>P\<close> to \<^verbatim>\<open>Q\<close>, the build returns \<^verbatim>\<open>P\<close> with
  the generic shape \<^verbatim>\<open>s\<close> and its declared colour, while the set collected for \<^verbatim>\<open>P\<close> is
  \<^verbatim>\<open>{'excitatory'}\<close>.
\<close>

theorem create_graph_ampa_only_shape:
  "map_sum id (\<lambda>(G, nst). (node_attr G ''P'' ''shape'', node_attr G ''P'' ''color'', map_of nst ''P''))
      (create_graph_state sample_ext
         [(''net'', sample_net None [mk_proj ''P'' ''Q'' (Some ''ampaSyn'') None])])
     = Inr (Some (VStr ''s''), Some (VColor (0, 0, 1, 1)), Some (TSet {VStr ''excitatory''}))"
  by (simp add: sample_defs eval_defs)

section \<open>Bidirectional projections\<close>

text \<open>
  Claim C2 says that the built graph has exactly two edges for every bidirectional
  projection, with identical attributes. A bidirectional projection from a population to
  itself gives one edge, the self-loop: for the single projection of kind \<^verbatim>\<open>ampaSyn\<close>
  from \<^verbatim>\<open>P\<close> to \<^verbatim>\<open>P\<close>, the edges of the built graph are the one pair \<^verbatim>\<open>(P, P)\<close>.
  And a later projection writes over one of the two edges: after a bidirectional
  projection of kind \<^verbatim>\<open>ampaSyn\<close> between \<^verbatim>\<open>P\<close> and \<^verbatim>\<open>Q\<close> and a projection of kind
  \<^verbatim>\<open>gabaSyn\<close> from \<^verbatim>\<open>P\<close> to \<^verbatim>\<open>Q\<close>, the edge from \<^verbatim>\<open>P\<close> to \<^verbatim>\<open>Q\<close> is red and the
  edge from \<^verbatim>\<open>Q\<close> to \<^verbatim>\<open>P\<close> is blue.
\<close>

theorem bidirectional_self_loop_counterexample:
  "map_sum id (\<lambda>G. map fst (edges G))
      (create_graph sample_ext
         [(''net'', sample_net None [mk_proj ''P'' ''P'' (Some ''ampaSyn'') (Some ''bidirectional'')])])
     = Inr [(''P'', ''P'')]
   \<and> map_sum id (\<lambda>G. (edge_attr G ''P'' ''Q'' ''color'', edge_attr G ''Q'' ''P'' ''color''))
      (create_graph sample_ext
         [(''net'', sample_net None [mk_proj ''P'' ''Q'' (Some ''ampaSyn'') (Some ''bidirectional''),
                                     mk_proj ''P'' ''Q'' (Some ''gabaSyn'') None])])
     = Inr (Some (VStr ''red''), Some (VStr ''blue''))"
  by (simp add: sample_defs eval_defs)

text \<open>
  Claim C2, amended. When the build succeeds, a bidirectional projection from \<open>pre\<close> to
  \<open>post\<close> leaves in the built graph the edge from \<open>pre\<close> to \<open>post\<close> and the edge from
  \<open>post\<close> to \<open>pre\<close>: exactly two edges when the ends differ, exactly one self-loop when
  they are the same. When no projection after it writes the pair \<open>(pre, post)\<close> or the
  pair \<open>(post, pre)\<close>, both edges carry, at each of the six keys, the attributes that
  \<^verbatim>\<open>_get_edge_attributes\<close> computed once for the projection.
\<close>

theorem create_graph_bidirectional:
  assumes "create_graph X ((nid, net) # rest) = Inr G"
    and "projections net = Some (ps @ (pid, proj) # qs)"
    and "directionality proj = Some ''bidirectional''"
    and "presynaptic proj = Some pre" and "postsynaptic proj = Some post"
  shows "length (filter (\<lambda>x. fst x \<in> {(pre, post), (post, pre)}) (edges G))
           = (if pre = post then 1 else 2)
       \<and> ((\<forall>q \<in> snd ` set qs. \<not> writes_edge q (pre, post) \<and> \<not> writes_edge q (post, pre))
          \<longrightarrow> (\<exists>a. get_edge_attributes X (synapse_type_of proj) proj (style_of proj) net = Inr a
                \<and> dom a = edge_keys
                \<and> (\<forall>k \<in> edge_keys.
                      edge_attr G pre post k = a k \<and> edge_attr G post pre k = a k)))"
proof -
  from assms(1) obtain nst where st: "create_graph_state X ((nid, net) # rest) = Inr (G, nst)"
    by (auto simp: create_graph_def bindE_Inr_iff)
  have w: "writes_edge proj (pre, post)" "writes_edge proj (post, pre)"
    using assms(3,4,5) by (simp_all add: writes_edge_def)
  have in1: "(pre, post) \<in> edge_ids G"
    using written_edge_kept [OF st assms(2) w(1)] by simp
  have in2: "(post, pre) \<in> edge_ids G"
    using written_edge_kept [OF st assms(2) w(2)] by simp
  have "distinct (map fst (edges G))"
    using create_graph_state_build_inv [OF st] by (simp add: build_inv_def)
  moreover have "{(pre, post), (post, pre)} \<subseteq> fst ` set (edges G)"
    using in1 in2 by (simp add: edge_ids_def)
  ultimately have "length (filter (\<lambda>x. fst x \<in> {(pre, post), (post, pre)}) (edges G))
      = card {(pre, post), (post, pre)}"
    by (rule count_distinct_keys)
  moreover have "card {(pre, post), (post, pre)} = (if pre = post then 1 else 2)"
    by auto
  ultimately have count: "length (filter (\<lambda>x. fst x \<in> {(pre, post), (post, pre)}) (edges G))
      = (if pre = post then 1 else 2)"
    by simp
  have same: "\<exists>a. get_edge_attributes X (synapse_type_of proj) proj (style_of proj) net = Inr a
                \<and> dom a = edge_keys
                \<and> (\<forall>k \<in> edge_keys.
                      edge_attr G pre post k = a k \<and> edge_attr G post pre k = a k)"
    if later: "\<forall>q \<in> snd ` set qs. \<not> writes_edge q (pre, post) \<and> \<not> writes_edge q (post, pre)"
  proof -
    from last_writer [OF st assms(2) w(1)] later obtain a where
      1: "get_edge_attributes X (synapse_type_of proj) proj (style_of proj) net = Inr a"
         "\<forall>k \<in> edge_keys. attrs_of (edges G) (pre, post) k = a k"
      by auto
    from last_writer [OF st assms(2) w(2)] later 1(1) have
      2: "\<forall>k \<in> edge_keys. attrs_of (edges G) (post, pre) k = a k"
      by auto
    show ?thesis
      using 1 2 get_edge_attributes_dom [OF 1(1)] by (auto simp: edge_attr_def)
  qed
  from count same show ?thesis by blast
qed

theorem create_graph_bidirectional_witness:
  "\<exists>G. create_graph sample_ext
          [(''net'', sample_net None [mk_proj ''P'' ''Q'' (Some ''ampaSyn'') (Some ''bidirectional'')])]
        = Inr G
      \<and> length (filter (\<lambda>x. fst x \<in> {(''P'', ''Q''), (''Q'', ''P'')}) (edges G)) = 2
      \<and> edge_attr G ''P'' ''Q'' ''color'' = Some (VStr ''blue'')
      \<and> edge_attr G ''Q'' ''P'' ''color'' = Some (VStr ''blue'')"
proof -
  let ?p = "mk_proj ''P'' ''Q'' (Some ''ampaSyn'') (Some ''bidirectional'')"
  let ?net = "sample_net None [?p]"
  obtain G where G: "create_graph sample_ext [(''net'', ?net)] = Inr G"
    by (simp add: sample_defs eval_defs)
  have 1: "projections ?net = Some ([] @ (''proj'', ?p) # [])"
    by (simp add: sample_net_def)
  have 2: "directionality ?p = Some ''bidirectional''" "presynaptic ?p = Some ''P''"
    "postsynaptic ?p = Some ''Q''"
    by (simp_all add: mk_proj_def)
  have 3: "\<forall>q \<in> snd ` set []. \<not> writes_edge q (''P'', ''Q'') \<and> \<not> writes_edge q (''Q'', ''P'')"
    by simp
  have 4: "get_edge_attributes sample_ext (synapse_type_of ?p) ?p (style_of ?p) ?net = Inr a
      \<Longrightarrow> a ''color'' = Some (VStr ''blue'')" for a
    by (auto simp: get_edge_attributes_def synapse_type_of_def mk_proj_def)
  have 5: "''color'' \<in> edge_keys"
    by (simp add: edge_keys_def)
  from create_graph_bidirectional [OF G 1 2] 3 have
    c: "length (filter (\<lambda>x. fst x \<in> {(''P'', ''Q''), (''Q'', ''P'')}) (edges G)) = 2"
    and a: "\<exists>a. get_edge_attributes sample_ext (synapse_type_of ?p) ?p (style_of ?p) ?net = Inr a
                \<and> dom a = edge_keys
                \<and> (\<forall>k \<in> edge_keys.
                      edge_attr G ''P'' ''Q'' k = a k \<and> edge_attr G ''Q'' ''P'' k = a k)"
    by simp_all
  from a 4 5 have "edge_attr G ''P'' ''Q'' ''color'' = Some (VStr ''blue'')
      \<and> edge_attr G ''Q'' ''P'' ''color'' = Some (VStr ''blue'')"
    by auto
  with G c show ?thesis by blast
qed

section \<open>References to identifiers that the model does not declare\<close>

text \<open>
  Claim C3 says that the build fails when a projection or an input names a population that
  the populations map lacks. With the populations \<^verbatim>\<open>P\<close> and \<^verbatim>\<open>Q\<close>, an input \<^verbatim>\<open>I\<close>
  whose target is \<^verbatim>\<open>Z\<close> and a projection from \<^verbatim>\<open>P\<close> to \<^verbatim>\<open>R\<close>, the build succeeds:
  \<^verbatim>\<open>add_edge\<close> creates the nodes \<^verbatim>\<open>Z\<close> and \<^verbatim>\<open>R\<close>, which have no shape, and both
  edges are in the graph.
\<close>

theorem unknown_reference_counterexample:
  "map_sum id (\<lambda>G. (map fst (nodes G), node_attr G ''R'' ''shape'', map fst (edges G)))
      (create_graph sample_ext
         [(''net'', sample_net (Some [(''I'', \<lparr>population = Some ''Z'', input_source = None\<rparr>)])
              [mk_proj ''P'' ''R'' (Some ''ampaSyn'') None])])
     = Inr ([''P'', ''Q'', ''I'', ''Z'', ''R''], None, [(''I'', ''Z''), (''P'', ''R'')])"
  by (simp add: sample_defs eval_defs)

text \<open>
  Claim C3, amended. When a projection of the model names a presynaptic identifier that
  the populations map lacks, the build fails. At that projection, if it has its
  postsynaptic and synapse keys, the exception is a \<^verbatim>\<open>KeyError\<close> that carries the
  identifier when \<^verbatim>\<open>node_synapse_types\<close> has no entry for it; when the identifier is that
  of an input node, whose entry is a string, and the kind is \<^verbatim>\<open>ampaSyn\<close> or
  \<^verbatim>\<open>gabaSyn\<close>, it is the \<^verbatim>\<open>AttributeError\<close> of \<^verbatim>\<open>add\<close>. (A postsynaptic identifier or
  an input target that the map lacks does not make the build fail.)
\<close>

theorem create_graph_unknown_presynaptic:
  assumes "populations net = Some pops" and "projections net = Some projs"
    and "(pid, proj) \<in> set projs" and "presynaptic proj = Some pre"
    and "pre \<notin> fst ` set pops"
  shows "(\<exists>e. create_graph X ((nid, net) # rest) = Inl e)
       \<and> (\<forall>G nst. postsynaptic proj \<noteq> None \<and> synapse proj \<noteq> None \<and> map_of nst pre = None
            \<longrightarrow> add_projection X G proj nst net = Inl (KeyError pre))
       \<and> (\<forall>G nst t. postsynaptic proj \<noteq> None \<and> map_of nst pre = Some (TStr t)
              \<and> (synapse proj = Some ''ampaSyn'' \<or> synapse proj = Some ''gabaSyn'')
            \<longrightarrow> add_projection X G proj nst net = Inl (AttributeError ''add''))"
proof -
  have P: "pop_ids net = fst ` set pops"
    by (simp add: pop_ids_def assms(1))
  have 1: "\<exists>e. create_graph X ((nid, net) # rest) = Inl e"
  proof (cases "create_graph_state X ((nid, net) # rest)")
    case (Inl e)
    then show ?thesis by (simp add: create_graph_def)
  next
    case (Inr s)
    from create_graph_state_phases [OF Inr] assms(2) obtain s3 where
      s3: "build_inv net s3" "foldE (proj_step X net) (map snd projs) s3 = Inr s"
      by auto
    have m: "proj \<in> set (map snd projs)"
      using assms(3) by force
    from foldE_step [where I = "build_inv net", OF s3(2) m s3(1)] proj_step_build_inv
    obtain t t' where t: "build_inv net t" "proj_step X net proj t = Inr t'"
      by blast
    obtain G0 nst0 where t0: "t = (G0, nst0)" by (cases t)
    have "nst_ok (fst ` set pops) nst0"
      using t(1) by (simp add: build_inv_def t0 P)
    from add_projection_unknown_pre [OF assms(4,5) this, of X G0 net] t(2)
    show ?thesis by (simp add: proj_step_def t0)
  qed
  have "map_of pops pre = None"
    using assms(5) by (simp add: map_of_eq_None_iff)
  then have l: "dict_lookup pre pops = Inl (KeyError pre)"
    by (simp add: dict_lookup_def)
  have 2: "\<forall>G nst. postsynaptic proj \<noteq> None \<and> synapse proj \<noteq> None \<and> map_of nst pre = None
            \<longrightarrow> add_projection X G proj nst net = Inl (KeyError pre)"
    using assms(1,4) l
    by (auto simp: add_projection_def get_edge_attributes_def synapse_type_of_def dict_lookup_def)
  have 3: "\<forall>G nst t. postsynaptic proj \<noteq> None \<and> map_of nst pre = Some (TStr t)
              \<and> (synapse proj = Some ''ampaSyn'' \<or> synapse proj = Some ''gabaSyn'')
            \<longrightarrow> add_projection X G proj nst net = Inl (AttributeError ''add'')"
    using assms(4)
    by (auto simp: add_projection_def get_edge_attributes_def synapse_type_of_def dict_lookup_def)
  from 1 2 3 show ?thesis by (intro conjI)
qed

theorem create_graph_unknown_presynaptic_witness:
  "(\<exists>e. create_graph sample_ext
           [(''net'', sample_net None [mk_proj ''R'' ''P'' (Some ''ampaSyn'') None])] = Inl e)
   \<and> add_projection sample_ext empty_graph (mk_proj ''R'' ''P'' (Some ''ampaSyn'') None)
        [(''P'', TSet {})] (sample_net None [mk_proj ''R'' ''P'' (Some ''ampaSyn'') None])
      = Inl (KeyError ''R'')
   \<and> add_projection sample_ext empty_graph (mk_proj ''R'' ''P'' (Some ''ampaSyn'') None)
        [(''R'', TStr ''dummy'')] (sample_net None [mk_proj ''R'' ''P'' (Some ''ampaSyn'') None])
      = Inl (AttributeError ''add'')"
proof -
  let ?p = "mk_proj ''R'' ''P'' (Some ''ampaSyn'') None"
  let ?net = "sample_net None [?p]"
  have 1: "populations ?net = Some [(''P'', sample_pop), (''Q'', sample_pop)]"
    "projections ?net = Some [(''proj'', ?p)]" "(''proj'', ?p) \<in> set [(''proj'', ?p)]"
    "presynaptic ?p = Some ''R''" "''R'' \<notin> fst ` set [(''P'', sample_pop), (''Q'', sample_pop)]"
    by (simp_all add: sample_net_def mk_proj_def)
  have 2: "postsynaptic ?p \<noteq> None \<and> synapse ?p \<noteq> None \<and> map_of [(''P'', TSet {})] ''R'' = None"
    "postsynaptic ?p \<noteq> None \<and> map_of [(''R'', TStr ''dummy'')] ''R'' = Some (TStr ''dummy'')
       \<and> (synapse ?p = Some ''ampaSyn'' \<or> synapse ?p = Some ''gabaSyn'')"
    by (simp_all add: mk_proj_def)
  from create_graph_unknown_presynaptic [OF 1, of sample_ext "''net''" "[]"] 2 show ?thesis
    by blast
qed

section \<open>The attributes that nodes and edges carry\<close>

text \<open>
  Claim C7 says that every edge of the built graph, input edges included, carries the six
  attributes. The edge from an input node to its target carries four: for one input
  \<^verbatim>\<open>I\<close> with target \<^verbatim>\<open>P\<close>, the edge from \<^verbatim>\<open>I\<close> to \<^verbatim>\<open>P\<close> has a \<^verbatim>\<open>synapse\<close> and
  neither \<^verbatim>\<open>info\<close> nor \<^verbatim>\<open>synapse_category\<close>.
\<close>

theorem input_edge_attributes_counterexample:
  "map_sum id (\<lambda>G. (map fst (edges G), edge_attr G ''I'' ''P'' ''synapse'',
                        edge_attr G ''I'' ''P'' ''info'', edge_attr G ''I'' ''P'' ''synapse_category''))
      (create_graph sample_ext
         [(''net'', sample_net (Some [(''I'', \<lparr>population = Some ''P'', input_source = None\<rparr>)]) [])])
     = Inr ([(''I'', ''P'')], Some (VStr ''input''), None, None)"
  by (simp add: sample_defs eval_defs)

text \<open>
  Claim C7, amended. In the built graph, every identifier that the model declares as a
  population or as an input is a node that carries \<^verbatim>\<open>color\<close>, \<^verbatim>\<open>shape\<close> and \<^verbatim>\<open>size\<close>;
  every edge carries \<^verbatim>\<open>synapse\<close>, \<^verbatim>\<open>style\<close>, \<^verbatim>\<open>arrowstyle\<close> and \<^verbatim>\<open>color\<close>; every edge
  that does not start at an input identifier, and every edge that a projection writes,
  carries \<^verbatim>\<open>info\<close> and \<^verbatim>\<open>synapse_category\<close> as well; and the edge from an input to its
  target, when no projection writes that pair, carries exactly \<^verbatim>\<open>synapse\<close>, \<^verbatim>\<open>style\<close>,
  \<^verbatim>\<open>arrowstyle\<close> and \<^verbatim>\<open>color\<close>.
\<close>

theorem create_graph_attributes:
  assumes "create_graph X ((nid, net) # rest) = Inr G"
  shows "(\<forall>n \<in> pop_ids net \<union> input_ids net.
            n \<in> node_ids G \<and> node_keys \<subseteq> dom (attrs_of (nodes G) n))
       \<and> (\<forall>e \<in> edge_ids G. input_edge_keys \<subseteq> dom (attrs_of (edges G) e))
       \<and> (\<forall>e \<in> edge_ids G. fst e \<notin> input_ids net \<longrightarrow> edge_keys \<subseteq> dom (attrs_of (edges G) e))
       \<and> (\<forall>ps pid proj qs e.
            projections net = Some (ps @ (pid, proj) # qs) \<and> writes_edge proj e
            \<longrightarrow> e \<in> edge_ids G \<and> edge_keys \<subseteq> dom (attrs_of (edges G) e))
       \<and> (\<forall>ins iid info t projs.
            inputs net = Some ins \<and> (iid, info) \<in> set ins \<and> population info = Some t
            \<and> projections net = Some projs \<and> (\<forall>q \<in> snd ` set projs. \<not> writes_edge q (iid, t))
            \<longrightarrow> (iid, t) \<in> edge_ids G \<and> dom (attrs_of (edges G) (iid, t)) = input_edge_keys)"
proof -
  from assms obtain nst where st: "create_graph_state X ((nid, net) # rest) = Inr (G, nst)"
    by (auto simp: create_graph_def bindE_Inr_iff)
  have "build_inv net (G, nst)"
    by (rule create_graph_state_build_inv [OF st])
  then have n: "nodes_ok (pop_ids net \<union> input_ids net) G" and e: "edges_ok (input_ids net) G"
    by (simp_all add: build_inv_def)
  have 1: "\<forall>n \<in> pop_ids net \<union> input_ids net.
            n \<in> node_ids G \<and> node_keys \<subseteq> dom (attrs_of (nodes G) n)"
    using n unfolding nodes_ok_def .
  have 2: "\<forall>e \<in> edge_ids G. input_edge_keys \<subseteq> dom (attrs_of (edges G) e)"
    using e unfolding edges_ok_def by blast
  have 3: "\<forall>e \<in> edge_ids G. fst e \<notin> input_ids net \<longrightarrow> edge_keys \<subseteq> dom (attrs_of (edges G) e)"
    using e unfolding edges_ok_def by blast
  have 4: "\<forall>ps pid proj qs e.
            projections net = Some (ps @ (pid, proj) # qs) \<and> writes_edge proj e
            \<longrightarrow> e \<in> edge_ids G \<and> edge_keys \<subseteq> dom (attrs_of (edges G) e)"
  proof (intro allI impI)
    fix ps pid proj qs e
    assume "projections net = Some (ps @ (pid, proj) # qs) \<and> writes_edge proj e"
    then show "e \<in> edge_ids G \<and> edge_keys \<subseteq> dom (attrs_of (edges G) e)"
      using written_edge_kept [OF st, of ps pid proj qs e] by simp
  qed
  have 5: "\<forall>ins iid info t projs.
            inputs net = Some ins \<and> (iid, info) \<in> set ins \<and> population info = Some t
            \<and> projections net = Some projs \<and> (\<forall>q \<in> snd ` set projs. \<not> writes_edge q (iid, t))
            \<longrightarrow> (iid, t) \<in> edge_ids G \<and> dom (attrs_of (edges G) (iid, t)) = input_edge_keys"
  proof (intro allI impI)
    fix ins iid info t projs
    assume "inputs net = Some ins \<and> (iid, info) \<in> set ins \<and> population info = Some t
            \<and> projections net = Some projs \<and> (\<forall>q \<in> snd ` set projs. \<not> writes_edge q (iid, t))"
    then show "(iid, t) \<in> edge_ids G \<and> dom (attrs_of (edges G) (iid, t)) = input_edge_keys"
      using input_edge_exact [OF st, of ins iid info t projs] by simp
  qed
  from 1 2 3 4 5 show ?thesis by (intro conjI)
qed

theorem create_graph_attributes_witness:
  "\<exists>G. create_graph sample_ext
          [(''net'', sample_net (Some [(''I'', \<lparr>population = Some ''P'', input_source = None\<rparr>)])
                       [mk_proj ''P'' ''Q'' (Some ''ampaSyn'') None])]
        = Inr G
      \<and> ''I'' \<in> node_ids G \<and> node_keys \<subseteq> dom (attrs_of (nodes G) ''I'')
      \<and> ''Q'' \<in> node_ids G \<and> node_keys \<subseteq> dom (attrs_of (nodes G) ''Q'')
      \<and> input_edge_keys \<subseteq> dom (attrs_of (edges G) (''I'', ''P''))
      \<and> edge_keys \<subseteq> dom (attrs_of (edges G) (''P'', ''Q''))
      \<and> dom (attrs_of (edges G) (''I'', ''P'')) = input_edge_keys"
proof -
  let ?p = "mk_proj ''P'' ''Q'' (Some ''ampaSyn'') None"
  let ?i = "\<lparr>population = Some ''P'', input_source = None\<rparr>"
  let ?net = "sample_net (Some [(''I'', ?i)]) [?p]"
  obtain G where G: "create_graph sample_ext [(''net'', ?net)] = Inr G"
    and e: "(''I'', ''P'') \<in> edge_ids G" "(''P'', ''Q'') \<in> edge_ids G"
    by (simp add: sample_defs eval_defs edge_ids_def)
  have n: "''I'' \<in> pop_ids ?net \<union> input_ids ?net" "''Q'' \<in> pop_ids ?net \<union> input_ids ?net"
    "fst (''P'', ''Q'') \<notin> input_ids ?net"
    by (simp_all add: pop_ids_def input_ids_def sample_net_def)
  have p: "projections ?net = Some ([] @ (''proj'', ?p) # []) \<and> writes_edge ?p (''P'', ''Q'')"
    by (simp add: sample_net_def writes_edge_def mk_proj_def)
  have i: "inputs ?net = Some [(''I'', ?i)] \<and> (''I'', ?i) \<in> set [(''I'', ?i)]
      \<and> population ?i = Some ''P'' \<and> projections ?net = Some [(''proj'', ?p)]
      \<and> (\<forall>q \<in> snd ` set [(''proj'', ?p)]. \<not> writes_edge q (''I'', ''P''))"
    by (simp add: sample_net_def writes_edge_def mk_proj_def)
  note t = create_graph_attributes [OF G]
  note a = t [THEN conjunct1]
  note b = t [THEN conjunct2, THEN conjunct1]
  note c = t [THEN conjunct2, THEN conjunct2, THEN conjunct1]
  note d = t [THEN conjunct2, THEN conjunct2, THEN conjunct2, THEN conjunct1]
  note f = t [THEN conjunct2, THEN conjunct2, THEN conjunct2, THEN conjunct2]
  from a n(1) have 1: "''I'' \<in> node_ids G \<and> node_keys \<subseteq> dom (attrs_of (nodes G) ''I'')"
    by (rule bspec)
  from a n(2) have 2: "''Q'' \<in> node_ids G \<and> node_keys \<subseteq> dom (attrs_of (nodes G) ''Q'')"
    by (rule bspec)
  from b e(1) have 3: "input_edge_keys \<subseteq> dom (attrs_of (edges G) (''I'', ''P''))"
    by (rule bspec)
  from c [rule_format, OF e(2) n(3)]
  have 4: "edge_keys \<subseteq> dom (attrs_of (edges G) (''P'', ''Q''))" .
  from d [rule_format, OF p]
  have 5: "(''P'', ''Q'') \<in> edge_ids G
      \<and> edge_keys \<subseteq> dom (attrs_of (edges G) (''P'', ''Q''))" .
  from f [rule_format, OF i]
  have 6: "(''I'', ''P'') \<in> edge_ids G
      \<and> dom (attrs_of (edges G) (''I'', ''P'')) = input_edge_keys" .
  show ?thesis
    using G 1 2 3 4 5 6 by (intro exI [of _ G]) simp
qed

section \<open>The category \<^verbatim>\<open>generic\<close> in the accumulated sets\<close>

text \<open>
  Claim C8 says that the accumulated set of a node never contains \<^verbatim>\<open>generic\<close>. A
  projection of kind \<^verbatim>\<open>generic\<close> from \<^verbatim>\<open>P\<close> to \<^verbatim>\<open>Q\<close> leaves \<^verbatim>\<open>{'generic'}\<close> as the
  set of \<^verbatim>\<open>P\<close> at the end of the build.
\<close>

theorem generic_category_accumulated_counterexample:
  "map_sum id (\<lambda>(G, nst). map_of nst ''P'')
      (create_graph_state sample_ext
         [(''net'', sample_net None [mk_proj ''P'' ''Q'' (Some ''generic'') None])])
     = Inr (Some (TSet {VStr ''generic''}))"
  by (simp add: sample_defs eval_defs)

text \<open>
  Claim C8, amended. A projection whose kind is neither \<^verbatim>\<open>ampaSyn\<close> nor \<^verbatim>\<open>gabaSyn\<close>
  adds \<^verbatim>\<open>generic\<close> to the accumulated set of its presynaptic node, and
  \<^verbatim>\<open>_update_node_shapes\<close> does the same to a node with and without \<^verbatim>\<open>generic\<close> in its
  set.
\<close>

theorem generic_category_ignored:
  "(synapse proj = Some k \<and> k \<noteq> ''ampaSyn'' \<and> k \<noteq> ''gabaSyn''
      \<and> add_projection X G proj nst net = Inr (G', nst')
    \<longrightarrow> (\<exists>pre T. presynaptic proj = Some pre \<and> map_of nst pre = Some (TSet T)
            \<and> nst' = AList.update pre (TSet (insert (VStr ''generic'') T)) nst))
   \<and> update_node_shape G n (TSet (insert (VStr ''generic'') S)) = update_node_shape G n (TSet S)"
proof -
  have "\<exists>pre T. presynaptic proj = Some pre \<and> map_of nst pre = Some (TSet T)
            \<and> nst' = AList.update pre (TSet (insert (VStr ''generic'') T)) nst"
    if k: "synapse proj = Some k" "k \<noteq> ''ampaSyn''" "k \<noteq> ''gabaSyn''"
      and r: "add_projection X G proj nst net = Inr (G', nst')"
  proof -
    from add_projection_Inr [OF r] obtain pre a T cat where
      *: "presynaptic proj = Some pre"
         "get_edge_attributes X (synapse_type_of proj) proj (style_of proj) net = Inr a"
         "map_of nst pre = Some (TSet T)" "a ''synapse_category'' = Some cat"
         "nst' = AList.update pre (TSet (insert cat T)) nst"
      by blast
    have "synapse_type_of proj = k" using k(1) by (simp add: synapse_type_of_def)
    then have "a ''synapse_category'' = Some (VStr ''generic'')"
      using *(2) k(2,3) by (auto simp: get_edge_attributes_def bindE_Inr_iff)
    then have "cat = VStr ''generic''" using *(4) by simp
    then show ?thesis using * by blast
  qed
  then show ?thesis using update_node_shape_generic by blast
qed

theorem generic_category_ignored_witness:
  "\<exists>G' nst'. add_projection sample_ext empty_graph (mk_proj ''P'' ''Q'' (Some ''generic'') None)
                 [(''P'', TSet {})] (sample_net None []) = Inr (G', nst')
      \<and> nst' = [(''P'', TSet {VStr ''generic''})]"
proof -
  let ?p = "mk_proj ''P'' ''Q'' (Some ''generic'') None"
  obtain G' nst' where r: "add_projection sample_ext empty_graph ?p [(''P'', TSet {})]
      (sample_net None []) = Inr (G', nst')"
    by (simp add: sample_defs eval_defs)
  have k: "synapse ?p = Some ''generic''" "''generic'' \<noteq> ''ampaSyn''" "''generic'' \<noteq> ''gabaSyn''"
    "presynaptic ?p = Some ''P''"
    by (simp_all add: mk_proj_def)
  from generic_category_ignored
    [where proj = ?p and k = "''generic''" and X = sample_ext and G = empty_graph
       and nst = "[(''P'', TSet {})]" and net = "sample_net None []" and G' = G' and nst' = nst']
    k r
  have "nst' = [(''P'', TSet {VStr ''generic''})]"
    by auto
  with r show ?thesis by blast
qed

section \<open>One edge for an ordered pair\<close>

text \<open>
  Claim C10. The built graph has at most one edge for an ordered pair of identifiers. A
  bidirectional projection from a population to itself leaves exactly one edge for that
  pair. When several projections write the same ordered pair, the pair has exactly one
  edge, and at each of the six keys it carries the attributes of the last projection that
  wrote it.
\<close>

theorem create_graph_one_edge_per_pair:
  assumes "create_graph X ((nid, net) # rest) = Inr G"
  shows "distinct (map fst (edges G))
       \<and> (\<forall>ps pid proj qs u.
            projections net = Some (ps @ (pid, proj) # qs)
            \<and> directionality proj = Some ''bidirectional''
            \<and> presynaptic proj = Some u \<and> postsynaptic proj = Some u
            \<longrightarrow> length (filter (\<lambda>x. fst x = (u, u)) (edges G)) = 1)
       \<and> (\<forall>ps pid proj qs e.
            projections net = Some (ps @ (pid, proj) # qs) \<and> writes_edge proj e
            \<and> (\<forall>q \<in> snd ` set qs. \<not> writes_edge q e)
            \<longrightarrow> length (filter (\<lambda>x. fst x = e) (edges G)) = 1
              \<and> (\<exists>a. get_edge_attributes X (synapse_type_of proj) proj (style_of proj) net = Inr a
                     \<and> (\<forall>k \<in> edge_keys. attrs_of (edges G) e k = a k)))"
proof -
  from assms obtain nst where st: "create_graph_state X ((nid, net) # rest) = Inr (G, nst)"
    by (auto simp: create_graph_def bindE_Inr_iff)
  have d: "distinct (map fst (edges G))"
    using create_graph_state_build_inv [OF st] by (simp add: build_inv_def)
  have one: "length (filter (\<lambda>x. fst x = e) (edges G)) = 1" if "e \<in> edge_ids G" for e
  proof -
    have "{e} \<subseteq> fst ` set (edges G)" using that by (simp add: edge_ids_def)
    from count_distinct_keys [OF d this] show ?thesis by simp
  qed
  have loop: "\<forall>ps pid proj qs u.
            projections net = Some (ps @ (pid, proj) # qs)
            \<and> directionality proj = Some ''bidirectional''
            \<and> presynaptic proj = Some u \<and> postsynaptic proj = Some u
            \<longrightarrow> length (filter (\<lambda>x. fst x = (u, u)) (edges G)) = 1"
  proof (intro allI impI)
    fix ps pid proj qs u
    assume h: "projections net = Some (ps @ (pid, proj) # qs)
            \<and> directionality proj = Some ''bidirectional''
            \<and> presynaptic proj = Some u \<and> postsynaptic proj = Some u"
    then have "writes_edge proj (u, u)" by (simp add: writes_edge_def)
    with h have "(u, u) \<in> edge_ids G"
      using written_edge_kept [OF st, of ps pid proj qs "(u, u)"] by simp
    then show "length (filter (\<lambda>x. fst x = (u, u)) (edges G)) = 1" by (rule one)
  qed
  have last: "\<forall>ps pid proj qs e.
            projections net = Some (ps @ (pid, proj) # qs) \<and> writes_edge proj e
            \<and> (\<forall>q \<in> snd ` set qs. \<not> writes_edge q e)
            \<longrightarrow> length (filter (\<lambda>x. fst x = e) (edges G)) = 1
              \<and> (\<exists>a. get_edge_attributes X (synapse_type_of proj) proj (style_of proj) net = Inr a
                     \<and> (\<forall>k \<in> edge_keys. attrs_of (edges G) e k = a k))"
  proof (intro allI impI)
    fix ps pid proj qs e
    assume h: "projections net = Some (ps @ (pid, proj) # qs) \<and> writes_edge proj e
            \<and> (\<forall>q \<in> snd ` set qs. \<not> writes_edge q e)"
    then have l: "e \<in> edge_ids G
       \<and> (\<exists>a. get_edge_attributes X (synapse_type_of proj) proj (style_of proj) net = Inr a
              \<and> (\<forall>k \<in> edge_keys. attrs_of (edges G) e k = a k))"
      using last_writer [OF st, of ps pid proj qs e] by simp
    then have "length (filter (\<lambda>x. fst x = e) (edges G)) = 1" using one by simp
    with l show "length (filter (\<lambda>x. fst x = e) (edges G)) = 1
              \<and> (\<exists>a. get_edge_attributes X (synapse_type_of proj) proj (style_of proj) net = Inr a
                     \<and> (\<forall>k \<in> edge_keys. attrs_of (edges G) e k = a k))"
      by simp
  qed
  from d loop last show ?thesis by (intro conjI)
qed

theorem create_graph_one_edge_per_pair_witness:
  "\<exists>G. create_graph sample_ext
          [(''net'', sample_net None
               [mk_proj ''P'' ''P'' (Some ''ampaSyn'') (Some ''bidirectional''),
                mk_proj ''P'' ''Q'' (Some ''ampaSyn'') None,
                mk_proj ''P'' ''Q'' (Some ''gabaSyn'') None])]
        = Inr G
      \<and> distinct (map fst (edges G))
      \<and> length (filter (\<lambda>x. fst x = (''P'', ''P'')) (edges G)) = 1
      \<and> length (filter (\<lambda>x. fst x = (''P'', ''Q'')) (edges G)) = 1
      \<and> attrs_of (edges G) (''P'', ''Q'') ''color'' = Some (VStr ''red'')"
proof -
  let ?p1 = "mk_proj ''P'' ''P'' (Some ''ampaSyn'') (Some ''bidirectional'')"
  let ?p2 = "mk_proj ''P'' ''Q'' (Some ''ampaSyn'') None"
  let ?p3 = "mk_proj ''P'' ''Q'' (Some ''gabaSyn'') None"
  let ?net = "sample_net None [?p1, ?p2, ?p3]"
  obtain G where G: "create_graph sample_ext [(''net'', ?net)] = Inr G"
    by (simp add: sample_defs eval_defs)
  have 1: "projections ?net = Some ([] @ (''proj'', ?p1) # [(''proj'', ?p2), (''proj'', ?p3)])
      \<and> directionality ?p1 = Some ''bidirectional''
      \<and> presynaptic ?p1 = Some ''P'' \<and> postsynaptic ?p1 = Some ''P''"
    by (simp add: sample_net_def mk_proj_def)
  have 2: "projections ?net = Some ([(''proj'', ?p1), (''proj'', ?p2)] @ (''proj'', ?p3) # [])
      \<and> writes_edge ?p3 (''P'', ''Q'') \<and> (\<forall>q \<in> snd ` set []. \<not> writes_edge q (''P'', ''Q''))"
    by (simp add: sample_net_def mk_proj_def writes_edge_def)
  have 3: "get_edge_attributes sample_ext (synapse_type_of ?p3) ?p3 (style_of ?p3) ?net = Inr a
      \<Longrightarrow> a ''color'' = Some (VStr ''red'')" for a
    by (auto simp: get_edge_attributes_def synapse_type_of_def mk_proj_def)
  have 4: "''color'' \<in> edge_keys"
    by (simp add: edge_keys_def)
  from create_graph_one_edge_per_pair [OF G] have
    a: "distinct (map fst (edges G))"
    and b: "\<forall>ps pid proj qs u.
            projections ?net = Some (ps @ (pid, proj) # qs)
            \<and> directionality proj = Some ''bidirectional''
            \<and> presynaptic proj = Some u \<and> postsynaptic proj = Some u
            \<longrightarrow> length (filter (\<lambda>x. fst x = (u, u)) (edges G)) = 1"
    and c: "\<forall>ps pid proj qs e.
            projections ?net = Some (ps @ (pid, proj) # qs) \<and> writes_edge proj e
            \<and> (\<forall>q \<in> snd ` set qs. \<not> writes_edge q e)
            \<longrightarrow> length (filter (\<lambda>x. fst x = e) (edges G)) = 1
              \<and> (\<exists>a. get_edge_attributes sample_ext (synapse_type_of proj) proj (style_of proj) ?net
                       = Inr a
                     \<and> (\<forall>k \<in> edge_keys. attrs_of (edges G) e k = a k))"
    by blast+
  from b 1 have b': "length (filter (\<lambda>x. fst x = (''P'', ''P'')) (edges G)) = 1"
    by blast
  from c 2 have c': "length (filter (\<lambda>x. fst x = (''P'', ''Q'')) (edges G)) = 1
              \<and> (\<exists>a. get_edge_attributes sample_ext (synapse_type_of ?p3) ?p3 (style_of ?p3) ?net
                       = Inr a
                     \<and> (\<forall>k \<in> edge_keys. attrs_of (edges G) (''P'', ''Q'') k = a k))"
    by blast
  with 3 4 have "attrs_of (edges G) (''P'', ''Q'') ''color'' = Some (VStr ''red'')"
    by auto
  with G a b' c' show ?thesis by blast
qed

end
